theory Spec2Isabelle
  imports Main "HOL-Library.AList"
begin

section \<open>Values and errors of the Python program\<close>

text \<open>
  The module \<^verbatim>\<open>build_parse_dag.py\<close> reads table definitions (parsed JSON) and builds an
  Airflow graph. A parsed JSON document is a value of \<open>json\<close>; a Python \<^verbatim>\<open>dict\<close> is an
  association list whose first binding of a key is the one looked up. JSON numbers with a
  fraction are left out (Python floats). A Python \<^verbatim>\<open>str\<close> is the list of the bytes of its
  UTF-8 encoding, so a character outside ASCII is several \<open>char\<close>s; the functions below that
  look for \<^verbatim>\<open>/\<close>, \<^verbatim>\<open>.\<close> or \<^verbatim>\<open>.json\<close> give the same result on the bytes as on the characters.
\<close>

datatype json =
    JNull
  | JBool bool
  | JInt int
  | JStr string
  | JArr "json list"
  | JObj "(string \<times> json) list"

text \<open>The exceptions the module can raise, each with what the model keeps of its payload.\<close>

datatype error =
    ValueError string
  | KeyError string
  | AttributeError
  | TypeError
  | AirflowException string
  | DuplicateTaskIdFound string

text \<open>Python truthiness, as used by \<^verbatim>\<open>if not table\<close>.\<close>

fun truthy :: "json \<Rightarrow> bool" where
  "truthy JNull = False"
| "truthy (JBool b) = b"
| "truthy (JInt n) = (n \<noteq> 0)"
| "truthy (JStr s) = (s \<noteq> [])"
| "truthy (JArr xs) = (xs \<noteq> [])"
| "truthy (JObj kvs) = (kvs \<noteq> [])"

text \<open>\<^verbatim>\<open>x.get(k)\<close>: only a dict has the method; a missing key gives \<^verbatim>\<open>None\<close>.\<close>

fun dict_get :: "json \<Rightarrow> string \<Rightarrow> error + json" where
  "dict_get (JObj kvs) k = Inr (case map_of kvs k of None \<Rightarrow> JNull | Some v \<Rightarrow> v)"
| "dict_get _ k = Inl AttributeError"

text \<open>\<^verbatim>\<open>x[k]\<close> with a string key: \<^verbatim>\<open>KeyError\<close> on a dict without the key, \<^verbatim>\<open>TypeError\<close>
  on every other JSON value.\<close>

fun getitem :: "json \<Rightarrow> string \<Rightarrow> error + json" where
  "getitem (JObj kvs) k = (case map_of kvs k of None \<Rightarrow> Inl (KeyError k) | Some v \<Rightarrow> Inr v)"
| "getitem _ k = Inl TypeError"

text \<open>\<^verbatim>\<open>x[k1][k2]\<close>.\<close>

definition getitem2 :: "json \<Rightarrow> string \<Rightarrow> string \<Rightarrow> error + json" where
  "getitem2 x k1 k2 = (case getitem x k1 of Inl e \<Rightarrow> Inl e | Inr y \<Rightarrow> getitem y k2)"

section \<open>String functions of the standard library\<close>

text \<open>\<^verbatim>\<open>s.split(c)\<close> for a one-character separator: never the empty list.\<close>

fun split :: "char \<Rightarrow> string \<Rightarrow> string list" where
  "split c [] = [[]]"
| "split c (x # xs) =
     (if x = c then [] # split c xs
      else (case split c xs of [] \<Rightarrow> [[x]] | p # ps \<Rightarrow> (x # p) # ps))"

text \<open>\<^verbatim>\<open>s.replace(old, new)\<close> for a non-empty \<open>old\<close> (the module's only call has
  \<^verbatim>\<open>'.json'\<close>): every occurrence, left to right, without overlap.\<close>

function replace :: "string \<Rightarrow> string \<Rightarrow> string \<Rightarrow> string" where
  "replace old new s =
     (if s = [] then []
      else if old \<noteq> [] \<and> take (length old) s = old
           then new @ replace old new (drop (length old) s)
      else hd s # replace old new (tl s))"
  by pat_completeness auto
termination
  by (relation "measure (\<lambda>(old, new, s). length s)") (auto simp: neq_Nil_conv)

text \<open>\<^verbatim>\<open>sep.join(xs)\<close>.\<close>

fun join :: "string \<Rightarrow> string list \<Rightarrow> string" where
  "join sep [] = []"
| "join sep [x] = x"
| "join sep (x # y # ys) = x @ sep @ join sep (y # ys)"

text \<open>\<^verbatim>\<open>os.path.join(a, b)\<close>, \<^verbatim>\<open>os.path.basename(p)\<close> and the root part of
  \<^verbatim>\<open>os.path.splitext(p)\<close> on POSIX paths.\<close>

definition path_join :: "string \<Rightarrow> string \<Rightarrow> string" where
  "path_join a b =
     (if b \<noteq> [] \<and> hd b = CHR ''/'' then b
      else if a = [] \<or> last a = CHR ''/'' then a @ b
      else a @ ''/'' @ b)"

definition basename :: "string \<Rightarrow> string" where
  "basename p = rev (takeWhile (\<lambda>c. c \<noteq> CHR ''/'') (rev p))"

definition splitext_root :: "string \<Rightarrow> string" where
  "splitext_root p =
     (let name = basename p;
          dir = take (length p - length name) p;
          after_dot = dropWhile (\<lambda>c. c \<noteq> CHR ''.'') (rev name)
      in if after_dot = [] then p
         else let stem = rev (tl after_dot)
              in if \<exists>c \<in> set stem. c \<noteq> CHR ''.'' then dir @ stem else p)"

section \<open>What the module gets from outside\<close>

text \<open>
  The file system (\<^verbatim>\<open>glob\<close>), the two readers of \<^verbatim>\<open>polygonetl_airflow.common\<close>, the
  compiled pattern \<^verbatim>\<open>ref_regex\<close> of \<^verbatim>\<open>polygonetl_airflow.parse.parse_logic\<close>, Python's
  \<^verbatim>\<open>str()\<close> of a value that is not a string and Python's \<^verbatim>\<open>str.lower()\<close>, which follows the
  Unicode case mapping, are not part of the module: they are parameters of the model. So is
  the answer of Airflow's check of a task id that has a character outside ASCII, which
  differs between the versions of Airflow. A read that fails is outside the model.
\<close>

record env =
  glob :: "string \<Rightarrow> string list"
  read_json_file :: "string \<Rightarrow> json"
  read_file :: "string \<Rightarrow> string"
  ref_findall :: "string \<Rightarrow> string list"
  py_str :: "json \<Rightarrow> string"
  py_lower :: "string \<Rightarrow> string"
  accepts_key :: "string \<Rightarrow> bool"

text \<open>A value inside an f-string.\<close>

definition format :: "env \<Rightarrow> json \<Rightarrow> string" where
  "format env v = (case v of JStr s \<Rightarrow> s | _ \<Rightarrow> py_str env v)"

definition get_list_of_files :: "env \<Rightarrow> string \<Rightarrow> string \<Rightarrow> string list" where
  "get_list_of_files env dataset_folder filter_pat = glob env (path_join dataset_folder filter_pat)"

section \<open>Validation of the definition files\<close>

text \<open>The body of the loop over the JSON files: the checks on one file, in the source's
  order; the result is the lower-cased table name that the loop appends. \<open>file_name_of\<close>
  is the loop's \<^verbatim>\<open>file_name\<close>: the last component of the path without \<^verbatim>\<open>.json\<close>.\<close>

definition file_name_of :: "string \<Rightarrow> string" where
  "file_name_of json_file = replace ''.json'' [] (last (split CHR ''/'' json_file))"

definition check_definition :: "env \<Rightarrow> string \<Rightarrow> string \<Rightarrow> error + string" where
  "check_definition env dataset_folder_name json_file =
     (let file_name = file_name_of json_file;
          table_definition = read_json_file env json_file
      in case dict_get table_definition ''table'' of
           Inl e \<Rightarrow> Inl e
         | Inr table \<Rightarrow>
      if \<not> truthy table then Inl (ValueError (''table is empty in file '' @ json_file))
      else case dict_get table ''dataset_name'' of
           Inl e \<Rightarrow> Inl e
         | Inr dataset_name \<Rightarrow>
      if \<not> truthy dataset_name
        then Inl (ValueError (''dataset_name is empty in file '' @ json_file))
      else if JStr dataset_folder_name \<noteq> dataset_name
        then Inl (ValueError (''dataset_name '' @ format env dataset_name
                    @ '' is not equal to dataset_folder_name '' @ dataset_folder_name))
      else case dict_get table ''table_name'' of
           Inl e \<Rightarrow> Inl e
         | Inr table_name \<Rightarrow>
      if \<not> truthy table_name
        then Inl (ValueError (''table_name is empty in file '' @ json_file))
      else if JStr file_name \<noteq> table_name
        then Inl (ValueError (''file_name '' @ file_name
                    @ '' doest match the table_name '' @ format env table_name))
      else case table_name of
             JStr s \<Rightarrow> Inr (py_lower env s)
           | _ \<Rightarrow> Inl AttributeError)"

fun validate_loop :: "env \<Rightarrow> string \<Rightarrow> string list \<Rightarrow> string list \<Rightarrow> error + string list" where
  "validate_loop env dataset_folder_name [] all_lowercase_table_names =
     Inr all_lowercase_table_names"
| "validate_loop env dataset_folder_name (json_file # json_files) all_lowercase_table_names =
     (case check_definition env dataset_folder_name json_file of
        Inl e \<Rightarrow> Inl e
      | Inr name \<Rightarrow>
          validate_loop env dataset_folder_name json_files (all_lowercase_table_names @ [name]))"

text \<open>\<^verbatim>\<open>table_name_counts[table_name] += 1\<close> on a \<^verbatim>\<open>defaultdict\<close> with default 0; a dict
  keeps its keys in the order of their first insertion.\<close>

fun count_table_names :: "string list \<Rightarrow> (string \<times> int) list \<Rightarrow> (string \<times> int) list" where
  "count_table_names [] table_name_counts = table_name_counts"
| "count_table_names (table_name # rest) table_name_counts =
     count_table_names rest
       (AList.update table_name
          ((case map_of table_name_counts table_name of None \<Rightarrow> 0 | Some n \<Rightarrow> n) + 1)
          table_name_counts)"

definition non_unique_table_names :: "string list \<Rightarrow> string list" where
  "non_unique_table_names all_lowercase_table_names =
     map fst (filter (\<lambda>(name, count). count > 1) (count_table_names all_lowercase_table_names []))"

definition validate_definition_files :: "env \<Rightarrow> string \<Rightarrow> error + unit" where
  "validate_definition_files env dataset_folder =
     (let json_files = get_list_of_files env dataset_folder ''*.json'';
          dataset_folder_name = last (split CHR ''/'' dataset_folder)
      in case validate_loop env dataset_folder_name json_files [] of
           Inl e \<Rightarrow> Inl e
         | Inr all_lowercase_table_names \<Rightarrow>
             let non_unique = non_unique_table_names all_lowercase_table_names
             in if length non_unique > 0
                then Inl (ValueError (''The following table names are not unique ''
                            @ join '','' non_unique))
                else Inr ())"

section \<open>The graph\<close>

text \<open>
  The callables handed to \<^verbatim>\<open>PythonOperator\<close> are closures; each is represented by its name
  and the values it captures. Operators carry the keyword arguments the module passes
  (times in minutes for \<^verbatim>\<open>timedelta\<close>, in seconds for plain numbers).
\<close>

datatype py_callable =
    raise_validation_error error
  | parse_task json
  | create_view_task string string string

datatype operator =
    PythonOperator (task_id: string) (python_callable: py_callable) (execution_timeout: int)
  | ExternalTaskSensor (task_id: string) (external_dag_id: string) (external_task_id: string)
      (execution_delta: int) (priority_weight: int) (mode: string) (retries: int)
      (poke_interval: int) (timeout: int)
  | BashOperator (task_id: string) (bash_command: string) (priority_weight: int)

text \<open>
  A DAG is the list of the operators constructed with \<^verbatim>\<open>dag=dag\<close>, in the order of their
  construction, and the dependencies set with \<^verbatim>\<open>>>\<close>, each a pair (upstream, downstream).
  The default arguments of the DAG and the check of the id of the DAG itself are not
  modelled: \<open>dag_id\<close> stands for an id that Airflow accepts.
\<close>

record dag =
  dag_id :: string
  tasks :: "operator list"
  edges :: "(operator \<times> operator) list"

definition add_task :: "operator \<Rightarrow> dag \<Rightarrow> dag" where
  "add_task t d = d\<lparr>tasks := tasks d @ [t]\<rparr>"

text \<open>
  Constructing an operator with \<^verbatim>\<open>dag=dag\<close> first checks its task id (Airflow's
  \<^verbatim>\<open>validate_key\<close>) and then adds it to the DAG, which refuses a task id the DAG already has.
  The check accepts a key of at most 250 characters made of word characters, \<^verbatim>\<open>.\<close> and
  \<^verbatim>\<open>-\<close>: on ASCII these are the non-empty strings of letters, digits, \<^verbatim>\<open>_\<close>, \<^verbatim>\<open>.\<close> and \<^verbatim>\<open>-\<close>,
  with at most one line feed after them (the end anchor of the pattern lets it through). For
  a key with a character outside ASCII the answer is the parameter \<open>accepts_key\<close>.
\<close>

definition key_char :: "char \<Rightarrow> bool" where
  "key_char c =
     (let n = (of_char c :: int)
      in (48 \<le> n \<and> n \<le> 57) \<or> (65 \<le> n \<and> n \<le> 90) \<or> (97 \<le> n \<and> n \<le> 122)
         \<or> n = 95 \<or> n = 46 \<or> n = 45)"

definition ascii_char :: "char \<Rightarrow> bool" where
  "ascii_char c = ((of_char c :: int) < 128)"

definition validate_key :: "env \<Rightarrow> string \<Rightarrow> bool" where
  "validate_key env k =
     (if list_all ascii_char k
      then (let body = (if k \<noteq> [] \<and> last k = CHR 0x0A then butlast k else k)
            in int (length k) \<le> 250 \<and> body \<noteq> [] \<and> list_all key_char body)
      else accepts_key env k)"

definition construct :: "env \<Rightarrow> operator \<Rightarrow> dag \<Rightarrow> error + dag" where
  "construct env t d =
     (if \<not> validate_key env (task_id t) then Inl (AirflowException (task_id t))
      else if task_id t \<in> set (map task_id (tasks d)) then Inl (DuplicateTaskIdFound (task_id t))
      else Inr (add_task t d))"

text \<open>\<^verbatim>\<open>a >> b\<close>: a dependency that is already there is not added again.\<close>

definition set_downstream :: "operator \<Rightarrow> operator \<Rightarrow> dag \<Rightarrow> dag" where
  "set_downstream a b d =
     (if (a, b) \<in> set (edges d) then d else d\<lparr>edges := edges d @ [(a, b)]\<rparr>)"



section \<open>Building the graph\<close>

text \<open>A task id that is not a string and an address that is neither \<^verbatim>\<open>None\<close> nor a string
  are refused by Airflow and by \<^verbatim>\<open>findall\<close> with a \<^verbatim>\<open>TypeError\<close>. The operator is constructed
  at line 106, before the address is read at line 114.\<close>

definition create_parse_task :: "env \<Rightarrow> json \<Rightarrow> dag \<Rightarrow> error + (dag \<times> operator \<times> string list)" where
  "create_parse_task env table_definition d =
     (case getitem2 table_definition ''table'' ''table_name'' of
        Inl e \<Rightarrow> Inl e
      | Inr (JStr table_name) \<Rightarrow>
          (let parsing_operator = PythonOperator table_name (parse_task table_definition) 60
           in case construct env parsing_operator d of
                Inl e \<Rightarrow> Inl e
              | Inr d' \<Rightarrow>
             (case getitem2 table_definition ''parser'' ''contract_address'' of
                Inl e \<Rightarrow> Inl e
              | Inr JNull \<Rightarrow> Inr (d', parsing_operator, [])
              | Inr (JStr contract_address) \<Rightarrow>
                  Inr (d', parsing_operator, ref_findall env contract_address)
              | Inr _ \<Rightarrow> Inl TypeError))
      | Inr _ \<Rightarrow> Inl TypeError)"

definition create_add_view_task ::
  "env \<Rightarrow> string \<Rightarrow> string \<Rightarrow> string \<Rightarrow> dag \<Rightarrow> error + (dag \<times> operator)" where
  "create_add_view_task env dataset_name view_name sql d =
     (let create_view_operator =
            PythonOperator (''create_view_'' @ view_name)
              (create_view_task dataset_name view_name sql) 10
      in case construct env create_view_operator d of
           Inl e \<Rightarrow> Inl e
         | Inr d' \<Rightarrow> Inr (d', create_view_operator))"

definition wait_for_ethereum_load_dag_task :: operator where
  "wait_for_ethereum_load_dag_task =
     ExternalTaskSensor ''wait_for_polygon_partition_dag'' ''polygon_partition_dag'' ''done''
       30 0 ''reschedule'' 20 (5 * 60) (60 * 60 * 30)"

definition checkpoint_task :: operator where
  "checkpoint_task = BashOperator ''parse_all_checkpoint'' ''echo parse_all_checkpoint'' 1000"

text \<open>The loop over the JSON files (lines 159 to 164): the state is the DAG and the two
  dicts \<^verbatim>\<open>all_parse_tasks\<close> and \<^verbatim>\<open>task_dependencies\<close>.\<close>

fun parse_tasks_loop ::
  "env \<Rightarrow> string list \<Rightarrow> dag \<times> (string \<times> operator) list \<times> (string \<times> string list) list
     \<Rightarrow> error + (dag \<times> (string \<times> operator) list \<times> (string \<times> string list) list)" where
  "parse_tasks_loop env [] st = Inr st"
| "parse_tasks_loop env (json_file # json_files) (d, all_parse_tasks, task_dependencies) =
     (case create_parse_task env (read_json_file env json_file) d of
        Inl e \<Rightarrow> Inl e
      | Inr (d', task, dependencies) \<Rightarrow>
          parse_tasks_loop env json_files
            (set_downstream wait_for_ethereum_load_dag_task task d',
             AList.update (task_id task) task all_parse_tasks,
             AList.update (task_id task) dependencies task_dependencies))"

text \<open>The inner loop over the dependencies of one task (lines 174 to 179), and the
  message of its error.\<close>

definition not_found_message :: "string \<Rightarrow> string" where
  "not_found_message dependency =
     ''Table '' @ dependency
       @ '' is not found in the the dataset. Check your ref() in contract_address field.''"

fun wire_dependencies ::
  "(string \<times> operator) list \<Rightarrow> string \<Rightarrow> string list \<Rightarrow> dag \<Rightarrow> error + dag" where
  "wire_dependencies all_parse_tasks task [] d = Inr d"
| "wire_dependencies all_parse_tasks task (dependency # dependencies) d =
     (case map_of all_parse_tasks dependency of
        None \<Rightarrow> Inl (ValueError (not_found_message dependency))
      | Some upstream \<Rightarrow>
         (case map_of all_parse_tasks task of
            None \<Rightarrow> Inl (KeyError task)
          | Some downstream \<Rightarrow>
              wire_dependencies all_parse_tasks task dependencies
                (set_downstream upstream downstream d)))"

text \<open>The outer loop over \<^verbatim>\<open>task_dependencies.items()\<close> (lines 173 to 181).\<close>

fun wire_loop ::
  "(string \<times> operator) list \<Rightarrow> (string \<times> string list) list \<Rightarrow> dag \<Rightarrow> error + dag" where
  "wire_loop all_parse_tasks [] d = Inr d"
| "wire_loop all_parse_tasks ((task, dependencies) # items) d =
     (case wire_dependencies all_parse_tasks task dependencies d of
        Inl e \<Rightarrow> Inl e
      | Inr d' \<Rightarrow>
         (case map_of all_parse_tasks task of
            None \<Rightarrow> Inl (KeyError task)
          | Some t \<Rightarrow> wire_loop all_parse_tasks items (set_downstream t checkpoint_task d')))"

text \<open>The loop over the SQL files (lines 191 to 197).\<close>

fun views_loop :: "env \<Rightarrow> string \<Rightarrow> string list \<Rightarrow> dag \<Rightarrow> error + dag" where
  "views_loop env full_dataset_name [] d = Inr d"
| "views_loop env full_dataset_name (sql_file # sql_files) d =
     (let sql = read_file env sql_file;
          base_name = basename sql_file;
          view_name = splitext_root base_name
      in case create_add_view_task env full_dataset_name view_name sql d of
           Inl e \<Rightarrow> Inl e
         | Inr (d', view_task) \<Rightarrow>
             views_loop env full_dataset_name sql_files
               (set_downstream checkpoint_task view_task d'))"

definition validation_error_operator :: "error \<Rightarrow> operator" where
  "validation_error_operator validation_error =
     PythonOperator ''validation_error'' (raise_validation_error validation_error) 10"

definition build_parse_dag :: "env \<Rightarrow> string \<Rightarrow> string \<Rightarrow> bool \<Rightarrow> error + dag" where
  "build_parse_dag env dag_id0 dataset_folder parse_all_partitions =
     (let d0 = \<lparr>dag_id = (if parse_all_partitions then dag_id0 @ ''_FULL'' else dag_id0),
                tasks = [], edges = []\<rparr>
      in case validate_definition_files env dataset_folder of
           Inl (ValueError m) \<Rightarrow> construct env (validation_error_operator (ValueError m)) d0
         | Inl e \<Rightarrow> Inl e
         | Inr u \<Rightarrow>
     (case construct env wait_for_ethereum_load_dag_task d0 of
           Inl e \<Rightarrow> Inl e
         | Inr d1 \<Rightarrow>
     (let json_files = get_list_of_files env dataset_folder ''*.json''
      in case parse_tasks_loop env json_files (d1, [], []) of
           Inl e \<Rightarrow> Inl e
         | Inr (d2, all_parse_tasks, task_dependencies) \<Rightarrow>
     (case construct env checkpoint_task d2 of
           Inl e \<Rightarrow> Inl e
         | Inr d3 \<Rightarrow>
     (case wire_loop all_parse_tasks task_dependencies d3 of
           Inl e \<Rightarrow> Inl e
         | Inr d4 \<Rightarrow>
     (let sql_files = get_list_of_files env dataset_folder ''*.sql'';
          dataset_name = basename dataset_folder;
          full_dataset_name = ''polygon_'' @ dataset_name
      in views_loop env full_dataset_name sql_files d4))))))"

section \<open>Notions used to state the properties\<close>

text \<open>What a definition declares in its \<^verbatim>\<open>table\<close> section, when that section is a dict: the
  value under a key, or nothing.\<close>

definition declared :: "json \<Rightarrow> string \<Rightarrow> json option" where
  "declared table_definition field =
     (case table_definition of
        JObj kvs \<Rightarrow> (case map_of kvs ''table'' of Some (JObj t) \<Rightarrow> map_of t field | _ \<Rightarrow> None)
      | _ \<Rightarrow> None)"

text \<open>The dependency list that \<open>create_parse_task\<close> returns for a definition (lines 114 to
  118 of the source), and the same for the definition in a file (empty when the lookup
  raises).\<close>

definition ref_dependencies :: "env \<Rightarrow> json \<Rightarrow> error + string list" where
  "ref_dependencies env table_definition =
     (case getitem2 table_definition ''parser'' ''contract_address'' of
        Inl e \<Rightarrow> Inl e
      | Inr JNull \<Rightarrow> Inr []
      | Inr (JStr contract_address) \<Rightarrow> Inr (ref_findall env contract_address)
      | Inr _ \<Rightarrow> Inl TypeError)"

definition dependencies_of :: "env \<Rightarrow> string \<Rightarrow> string list" where
  "dependencies_of env json_file =
     (case ref_dependencies env (read_json_file env json_file) of Inl e \<Rightarrow> [] | Inr ds \<Rightarrow> ds)"

text \<open>The parse operator of the definition in a JSON file whose table name is the name of
  the file, and the view operator of a SQL file.\<close>

definition parse_operator_of :: "env \<Rightarrow> string \<Rightarrow> operator" where
  "parse_operator_of env json_file =
     PythonOperator (file_name_of json_file) (parse_task (read_json_file env json_file)) 60"

definition view_operator_of :: "env \<Rightarrow> string \<Rightarrow> string \<Rightarrow> operator" where
  "view_operator_of env full_dataset_name sql_file =
     PythonOperator (''create_view_'' @ splitext_root (basename sql_file))
       (create_view_task full_dataset_name (splitext_root (basename sql_file))
          (read_file env sql_file)) 10"

text \<open>The DAG before any operator is constructed.\<close>

definition start_dag :: "string \<Rightarrow> bool \<Rightarrow> dag" where
  "start_dag dag_id0 parse_all_partitions =
     \<lparr>dag_id = (if parse_all_partitions then dag_id0 @ ''_FULL'' else dag_id0),
      tasks = [], edges = []\<rparr>"

text \<open>The dependencies that the wiring loop sets for given dicts, and all the dependencies
  of a complete graph.\<close>

definition wired :: "(string \<times> operator) list \<Rightarrow> (string \<times> string list) list \<Rightarrow> (operator \<times> operator) set" where
  "wired apt items =
     (\<Union>(task, deps) \<in> set items.
         insert (the (map_of apt task), checkpoint_task)
           ((\<lambda>dep. (the (map_of apt dep), the (map_of apt task))) ` set deps))"

definition graph_edges :: "env \<Rightarrow> string \<Rightarrow> (operator \<times> operator) set" where
  "graph_edges env dataset_folder =
     (let ps = get_list_of_files env dataset_folder ''*.json'';
          ss = get_list_of_files env dataset_folder ''*.sql''
      in (\<lambda>p. (wait_for_ethereum_load_dag_task, parse_operator_of env p)) ` set ps
       \<union> (\<Union>p \<in> set ps. \<Union>q \<in> set ps.
            if file_name_of q \<in> set (dependencies_of env p)
            then {(parse_operator_of env q, parse_operator_of env p)} else {})
       \<union> (\<lambda>p. (parse_operator_of env p, checkpoint_task)) ` set ps
       \<union> (\<lambda>s. (checkpoint_task,
                 view_operator_of env (''polygon_'' @ basename dataset_folder) s)) ` set ss)"

text \<open>Kinds of operators, and the upstream operators of one.\<close>

fun is_sensor :: "operator \<Rightarrow> bool" where
  "is_sensor (ExternalTaskSensor _ _ _ _ _ _ _ _ _) = True"
| "is_sensor _ = False"

fun is_parse_task :: "operator \<Rightarrow> bool" where
  "is_parse_task (PythonOperator _ (parse_task _) _) = True"
| "is_parse_task _ = False"

fun is_view_task :: "operator \<Rightarrow> bool" where
  "is_view_task (PythonOperator _ (create_view_task _ _ _) _) = True"
| "is_view_task _ = False"

definition upstream :: "dag \<Rightarrow> operator \<Rightarrow> operator set" where
  "upstream d t = set (map fst (filter (\<lambda>e. snd e = t) (edges d)))"

section \<open>Example folders\<close>

text \<open>
  The example folders have ASCII names only. On a string of ASCII characters \<^verbatim>\<open>str.lower()\<close>
  adds 32 to the codes from 65 to 90 (\<^verbatim>\<open>A\<close> to \<^verbatim>\<open>Z\<close>), which is setting the bit of value 32,
  and keeps the other characters: this is the \<open>py_lower\<close> of the example environments. It
  does not stand for \<^verbatim>\<open>str.lower()\<close> on other strings.
\<close>

definition ascii_lower_char :: "char \<Rightarrow> char" where
  "ascii_lower_char c =
     (let n = (of_char c :: int)
      in if 65 \<le> n \<and> n \<le> 90
         then Char (digit0 c) (digit1 c) (digit2 c) (digit3 c) (digit4 c) True (digit6 c) (digit7 c)
         else c)"

definition ascii_lower :: "string \<Rightarrow> string" where
  "ascii_lower s = map ascii_lower_char s"

text \<open>
  A definition file with the three fields of the data model, a file system with one dataset
  folder, what a pattern for \<^verbatim>\<open>ref('<name>')\<close> finds in the addresses used in the examples,
  and a warehouse in which every call succeeds.
\<close>

definition example_definition :: "string \<Rightarrow> string \<Rightarrow> json \<Rightarrow> json" where
  "example_definition dataset_name table_name contract_address =
     JObj [(''table'', JObj [(''dataset_name'', JStr dataset_name), (''table_name'', JStr table_name)]),
           (''parser'', JObj [(''contract_address'', contract_address)])]"

definition example_findall :: "string \<Rightarrow> string list" where
  "example_findall s = (if s = ''ref('A')'' then [''A''] else [])"

definition example_env :: "string \<Rightarrow> (string \<times> json) list \<Rightarrow> string list \<Rightarrow> env" where
  "example_env dataset_folder json_files sql_files =
     \<lparr>glob = (\<lambda>pat. if pat = path_join dataset_folder ''*.json'' then map fst json_files
                    else if pat = path_join dataset_folder ''*.sql'' then sql_files
                    else []),
      read_json_file = (\<lambda>p. case map_of json_files p of None \<Rightarrow> JNull | Some v \<Rightarrow> v),
      read_file = (\<lambda>p. ''select 1''),
      ref_findall = example_findall,
      py_str = (\<lambda>v. []),
      py_lower = ascii_lower,
      accepts_key = (\<lambda>k. False)\<rparr>"


text \<open>A folder that validates and builds: \<^verbatim>\<open>A\<close> without an address, \<^verbatim>\<open>B\<close> referring to
  \<^verbatim>\<open>A\<close>, one view; and the graph built from it.\<close>

definition env_ok :: env where
  "env_ok = example_env ''defs/ds''
     [(''defs/ds/A.json'', example_definition ''ds'' ''A'' JNull),
      (''defs/ds/B.json'', example_definition ''ds'' ''B'' (JStr ''ref('A')''))]
     [''defs/ds/v1.sql'']"

definition op_A :: operator where
  "op_A = PythonOperator ''A'' (parse_task (example_definition ''ds'' ''A'' JNull)) 60"

definition op_B :: operator where
  "op_B = PythonOperator ''B'' (parse_task (example_definition ''ds'' ''B'' (JStr ''ref('A')''))) 60"

definition op_v1 :: operator where
  "op_v1 = PythonOperator ''create_view_v1'' (create_view_task ''polygon_ds'' ''v1'' ''select 1'') 10"

definition dag_ok :: dag where
  "dag_ok = \<lparr>dag_id = ''dag'',
     tasks = [wait_for_ethereum_load_dag_task, op_A, op_B, checkpoint_task, op_v1],
     edges = [(wait_for_ethereum_load_dag_task, op_A), (wait_for_ethereum_load_dag_task, op_B),
              (op_A, checkpoint_task), (op_A, op_B), (op_B, checkpoint_task),
              (checkpoint_task, op_v1)]\<rparr>"

text \<open>The same folder with \<^verbatim>\<open>B\<close> declaring another dataset: validation fails. The graph
  built from it has one operator.\<close>

definition env_invalid :: env where
  "env_invalid = example_env ''defs/ds''
     [(''defs/ds/A.json'', example_definition ''ds'' ''A'' JNull),
      (''defs/ds/B.json'', example_definition ''other'' ''B'' (JStr ''ref('A')''))]
     [''defs/ds/v1.sql'']"

definition dag_invalid :: dag where
  "dag_invalid = \<lparr>dag_id = ''dag'',
     tasks = [PythonOperator ''validation_error''
                (raise_validation_error
                   (ValueError ''dataset_name other is not equal to dataset_folder_name ds'')) 10],
     edges = []\<rparr>"



text \<open>Two definitions whose table names differ by case only, and a folder with two such
  pairs.\<close>

definition env_case :: env where
  "env_case = example_env ''defs/ds''
     [(''defs/ds/Foo.json'', example_definition ''ds'' ''Foo'' JNull),
      (''defs/ds/foo.json'', example_definition ''ds'' ''foo'' JNull)] []"

definition env_case_pairs :: env where
  "env_case_pairs = example_env ''defs/ds''
     [(''defs/ds/Foo.json'', example_definition ''ds'' ''Foo'' JNull),
      (''defs/ds/Bar.json'', example_definition ''ds'' ''Bar'' JNull),
      (''defs/ds/only.json'', example_definition ''ds'' ''only'' JNull),
      (''defs/ds/foo.json'', example_definition ''ds'' ''foo'' JNull),
      (''defs/ds/bar.json'', example_definition ''ds'' ''bar'' JNull)] []"

text \<open>A folder given with a trailing slash, with one definition declaring the dataset name
  \<open>n\<close>.\<close>

definition env_slash :: "string \<Rightarrow> env" where
  "env_slash n = example_env ''defs/ds/''
     [(''defs/ds/t.json'', example_definition n ''t'' JNull)] []"

text \<open>A folder \<^verbatim>\<open>mydataset\<close>: the first file declares a table name that is not its file
  name, the second declares the dataset \<^verbatim>\<open>other\<close>.\<close>

definition env_mismatch :: env where
  "env_mismatch = example_env ''defs/mydataset''
     [(''defs/mydataset/a.json'', example_definition ''mydataset'' ''b'' JNull),
      (''defs/mydataset/foo.json'', example_definition ''other'' ''foo'' JNull)] []"

text \<open>Two folders that validate but whose table names are refused as task ids: a name
  with a space, and the name of the checkpoint.\<close>

definition env_bad_key :: env where
  "env_bad_key = example_env ''defs/ds''
     [(''defs/ds/my table.json'', example_definition ''ds'' ''my table'' JNull)] []"

definition env_checkpoint_name :: env where
  "env_checkpoint_name = example_env ''defs/ds''
     [(''defs/ds/parse_all_checkpoint.json'',
       example_definition ''ds'' ''parse_all_checkpoint'' (JStr ''ref('A')''))] []"

section \<open>Lemmas on validation\<close>

text \<open>
  The counts kept in \<open>count_table_names\<close> are those of \<open>count_list\<close>, so the names reported
  as not unique are the names that occur more than once; and \<open>validate_definition_files\<close>
  succeeds exactly when every file passes \<open>check_definition\<close> and the lower-cased file names
  are distinct.
\<close>

lemma update_fresh: "k \<notin> fst ` set al \<Longrightarrow> AList.update k v al = al @ [(k, v)]"
  by (induction al) auto

lemma count_table_names_distinct:
  "distinct (map fst acc) \<Longrightarrow> distinct (map fst (count_table_names xs acc))"
  by (induction xs arbitrary: acc) (auto simp: distinct_update)

lemma count_table_names_map_of:
  "map_of (count_table_names xs acc) n =
     (if n \<in> set xs \<or> n \<in> fst ` set acc
      then Some (int (count_list xs n) + (case map_of acc n of None \<Rightarrow> 0 | Some c \<Rightarrow> c))
      else None)"
proof (induction xs arbitrary: acc)
  case Nil
  then show ?case by (auto simp: map_of_eq_None_iff split: option.splits)
next
  case (Cons x xs)
  show ?case
    by (simp add: Cons.IH update_conv' dom_update map_of_eq_None_iff split: option.splits)
qed

lemma count_list_distinct_iff: "distinct xs \<longleftrightarrow> (\<forall>n \<in> set xs. count_list xs n \<le> 1)"
  by (induction xs) (auto simp: count_list_0_iff)

lemma in_counts_iff:
  "(n, c) \<in> set (count_table_names xs []) \<longleftrightarrow> n \<in> set xs \<and> c = int (count_list xs n)"
proof -
  have d: "distinct (map fst (count_table_names xs []))"
    by (rule count_table_names_distinct) simp
  have "(n, c) \<in> set (count_table_names xs []) \<longleftrightarrow> map_of (count_table_names xs []) n = Some c"
    using d by simp
  also have "\<dots> \<longleftrightarrow> n \<in> set xs \<and> c = int (count_list xs n)"
    by (auto simp: count_table_names_map_of)
  finally show ?thesis .
qed

lemma set_non_unique_table_names:
  "set (non_unique_table_names xs) = {n \<in> set xs. 1 < count_list xs n}"
  by (auto simp: non_unique_table_names_def in_counts_iff image_iff)

lemma distinct_non_unique_table_names: "distinct (non_unique_table_names xs)"
proof -
  have "distinct (map fst (count_table_names xs []))"
    by (rule count_table_names_distinct) simp
  then show ?thesis
    unfolding non_unique_table_names_def by (rule distinct_map_filter)
qed

lemma non_unique_table_names_Nil_iff: "non_unique_table_names xs = [] \<longleftrightarrow> distinct xs"
proof -
  have "non_unique_table_names xs = [] \<longleftrightarrow> set (non_unique_table_names xs) = {}"
    by simp
  also have "\<dots> \<longleftrightarrow> distinct xs"
    unfolding set_non_unique_table_names count_list_distinct_iff by (auto simp: not_less)
  finally show ?thesis .
qed

lemma join_concat: "join sep (x # xs) = x @ concat (map (\<lambda>y. sep @ y) xs)"
  by (induction xs arbitrary: x) simp_all

lemma check_definition_Inr_iff:
  "check_definition env f p = Inr n \<longleftrightarrow>
     declared (read_json_file env p) ''dataset_name'' = Some (JStr f) \<and> f \<noteq> [] \<and>
     declared (read_json_file env p) ''table_name'' = Some (JStr (file_name_of p)) \<and>
     file_name_of p \<noteq> [] \<and> n = py_lower env (file_name_of p)"
  unfolding check_definition_def declared_def Let_def
  by (cases "read_json_file env p") (auto split: option.splits json.splits if_splits sum.splits)

lemma check_definition_name:
  "check_definition env f p = Inr n \<Longrightarrow> n = py_lower env (file_name_of p)"
  by (simp add: check_definition_Inr_iff)

lemma check_definition_dataset_mismatch:
  assumes "declared (read_json_file env p) ''dataset_name'' = Some (JStr dn)"
    and "dn \<noteq> []" and "dn \<noteq> f"
  shows "check_definition env f p =
     Inl (ValueError (''dataset_name '' @ dn @ '' is not equal to dataset_folder_name '' @ f))"
  using assms unfolding check_definition_def declared_def Let_def format_def
  by (cases "read_json_file env p") (auto split: option.splits json.splits)

lemma validate_loop_Inr_iff:
  "validate_loop env f ps acc = Inr names \<longleftrightarrow>
     (\<forall>p \<in> set ps. check_definition env f p = Inr (py_lower env (file_name_of p))) \<and>
     names = acc @ map (\<lambda>p. py_lower env (file_name_of p)) ps"
proof (induction ps arbitrary: acc)
  case Nil
  show ?case by auto
next
  case (Cons p ps)
  show ?case
  proof (cases "check_definition env f p")
    case (Inl e)
    then show ?thesis by simp
  next
    case (Inr n)
    then have n: "n = py_lower env (file_name_of p)" by (rule check_definition_name)
    show ?thesis using Inr n by (auto simp: Cons.IH)
  qed
qed

lemma validate_loop_first_failure:
  "\<forall>q \<in> set pre. \<exists>n. check_definition env f q = Inr n \<Longrightarrow>
   check_definition env f p = Inl e \<Longrightarrow>
   validate_loop env f (pre @ p # post) acc = Inl e"
proof (induction pre arbitrary: acc)
  case Nil
  then show ?case by simp
next
  case (Cons q pre)
  then obtain n where "check_definition env f q = Inr n" by auto
  with Cons show ?case by simp
qed

lemma validate_loop_fails:
  "p \<in> set ps \<Longrightarrow> check_definition env f p = Inl e \<Longrightarrow> \<exists>e'. validate_loop env f ps acc = Inl e'"
proof (cases "validate_loop env f ps acc")
  case (Inl a)
  then show ?thesis by blast
next
  case (Inr names)
  assume "p \<in> set ps" "check_definition env f p = Inl e"
  with Inr show ?thesis by (auto simp: validate_loop_Inr_iff)
qed

lemma validate_loop_Inl_validate:
  "validate_loop env (last (split CHR ''/'' folder)) (get_list_of_files env folder ''*.json'') [] = Inl e
   \<Longrightarrow> validate_definition_files env folder = Inl e"
  by (simp add: validate_definition_files_def)

lemma validate_Inr_iff:
  "validate_definition_files env folder = Inr u \<longleftrightarrow>
     (\<forall>p \<in> set (get_list_of_files env folder ''*.json'').
        check_definition env (last (split CHR ''/'' folder)) p = Inr (py_lower env (file_name_of p))) \<and>
     distinct (map (\<lambda>p. py_lower env (file_name_of p)) (get_list_of_files env folder ''*.json''))"
  (is "?L \<longleftrightarrow> ?A \<and> ?D")
proof (cases ?A)
  case True
  then have "validate_loop env (last (split CHR ''/'' folder)) (get_list_of_files env folder ''*.json'') []
      = Inr (map (\<lambda>p. py_lower env (file_name_of p)) (get_list_of_files env folder ''*.json''))"
    by (simp add: validate_loop_Inr_iff)
  then show ?thesis
    using True by (simp add: validate_definition_files_def non_unique_table_names_Nil_iff)
next
  case False
  then have "\<And>names. validate_loop env (last (split CHR ''/'' folder))
      (get_list_of_files env folder ''*.json'') [] \<noteq> Inr names"
    by (simp add: validate_loop_Inr_iff)
  then have "\<not> ?L"
    by (auto simp: validate_definition_files_def Let_def split: sum.splits)
  with False show ?thesis by blast
qed

lemma validate_not_unique:
  assumes "\<forall>p \<in> set (get_list_of_files env folder ''*.json'').
             \<exists>n. check_definition env (last (split CHR ''/'' folder)) p = Inr n"
    and "\<not> distinct (map (\<lambda>p. py_lower env (file_name_of p)) (get_list_of_files env folder ''*.json''))"
  shows "validate_definition_files env folder =
      Inl (ValueError (''The following table names are not unique '' @ join '',''
         (non_unique_table_names (map (\<lambda>p. py_lower env (file_name_of p)) (get_list_of_files env folder ''*.json'')))))"
proof -
  let ?ps = "get_list_of_files env folder ''*.json''"
  have "\<forall>p \<in> set ?ps. check_definition env (last (split CHR ''/'' folder)) p = Inr (py_lower env (file_name_of p))"
    using assms(1) check_definition_name by fastforce
  then have "validate_loop env (last (split CHR ''/'' folder)) ?ps [] = Inr (map (\<lambda>p. py_lower env (file_name_of p)) ?ps)"
    by (simp add: validate_loop_Inr_iff)
  then show ?thesis
    using assms(2) by (simp add: validate_definition_files_def non_unique_table_names_Nil_iff)
qed

lemma twice_in_list:
  assumes "i < j" and "j < length xs" and "xs ! i = x" and "xs ! j = x"
  shows "\<not> distinct xs \<and> x \<in> set xs \<and> 1 < count_list xs x"
proof -
  have i: "i < length xs" using assms(1,2) by simp
  have nd: "\<not> distinct xs"
  proof
    assume "distinct xs"
    then have "i = j" using i assms(2,3,4) by (metis nth_eq_iff_index_eq)
    with assms(1) show False by simp
  qed
  have mem: "x \<in> set xs" using assms(3) i by auto
  have xs: "xs = take j xs @ x # drop (Suc j) xs"
    using assms(2,4) by (metis id_take_nth_drop)
  have "take j xs ! i = x" using assms(1,3) by simp
  moreover have "i < length (take j xs)" using assms(1,2) by simp
  ultimately have "x \<in> set (take j xs)" by (metis nth_mem)
  then have "0 < count_list (take j xs) x"
    using count_list_0_iff [of "take j xs" x] by auto
  moreover have "count_list xs x = count_list (take j xs) x + (1 + count_list (drop (Suc j) xs) x)"
    by (subst xs) simp
  ultimately have "1 < count_list xs x" by simp
  with nd mem show ?thesis by simp
qed

lemma validated_files:
  assumes "validate_definition_files env folder = Inr u"
  shows "\<forall>p \<in> set (get_list_of_files env folder ''*.json'').
           declared (read_json_file env p) ''table_name'' = Some (JStr (file_name_of p))"
    and "distinct (map file_name_of (get_list_of_files env folder ''*.json''))"
proof -
  from assms have a: "\<forall>p \<in> set (get_list_of_files env folder ''*.json'').
        check_definition env (last (split CHR ''/'' folder)) p = Inr (py_lower env (file_name_of p))"
    and d: "distinct (map (\<lambda>p. py_lower env (file_name_of p)) (get_list_of_files env folder ''*.json''))"
    by (simp_all add: validate_Inr_iff)
  show "\<forall>p \<in> set (get_list_of_files env folder ''*.json'').
           declared (read_json_file env p) ''table_name'' = Some (JStr (file_name_of p))"
    using a by (simp add: check_definition_Inr_iff)
  have "distinct (map (py_lower env) (map file_name_of (get_list_of_files env folder ''*.json'')))"
    using d by (simp add: comp_def)
  then show "distinct (map file_name_of (get_list_of_files env folder ''*.json''))"
    by (simp only: distinct_map)
qed

section \<open>Lemmas on the construction of operators\<close>

text \<open>
  An operator is constructed exactly when its task id passes \<open>validate_key\<close> and the DAG
  has no operator with that id yet. The three task ids that the module writes itself pass
  the check in every environment.
\<close>

lemma construct_Inr_iff:
  "construct env t d = Inr d' \<longleftrightarrow>
     validate_key env (task_id t) \<and> task_id t \<notin> task_id ` set (tasks d) \<and> d' = add_task t d"
  by (auto simp: construct_def)

lemma construct_Inr:
  "validate_key env (task_id t) \<Longrightarrow> task_id t \<notin> task_id ` set (tasks d) \<Longrightarrow>
   construct env t d = Inr (add_task t d)"
  by (simp add: construct_Inr_iff)

lemma fixed_keys [simp]:
  "validate_key env ''validation_error''"
  "validate_key env ''wait_for_polygon_partition_dag''"
  "validate_key env ''parse_all_checkpoint''"
  by (simp_all add: validate_key_def ascii_char_def key_char_def)

lemma fixed_task_ids [simp]:
  "task_id (validation_error_operator e) = ''validation_error''"
  "task_id wait_for_ethereum_load_dag_task = ''wait_for_polygon_partition_dag''"
  "task_id checkpoint_task = ''parse_all_checkpoint''"
  "task_id (parse_operator_of env p) = file_name_of p"
  by (simp_all add: validation_error_operator_def wait_for_ethereum_load_dag_task_def
        checkpoint_task_def parse_operator_of_def)

lemma set_downstream_simps [simp]:
  "tasks (set_downstream a b d) = tasks d"
  "dag_id (set_downstream a b d) = dag_id d"
  "set (edges (set_downstream a b d)) = insert (a, b) (set (edges d))"
  by (auto simp: set_downstream_def)

lemma add_task_simps [simp]:
  "tasks (add_task t d) = tasks d @ [t]"
  "dag_id (add_task t d) = dag_id d"
  "edges (add_task t d) = edges d"
  by (auto simp: add_task_def)

section \<open>Lemmas on the loops that build the graph\<close>

text \<open>
  Each loop of \<open>build_parse_dag\<close> is described by what it returns: the operators it adds,
  in their order, and the set of dependencies it adds. After validation the table name of
  each definition is the \<open>file_name_of\<close> its file and these names are distinct, so the two
  dicts of the parse loop have one entry for each file, in the order of the listing. The
  parse loop returns only when every table name is accepted as a task id and is new in the
  DAG.
\<close>

lemma declared_getitem2:
  "declared td field = Some v \<Longrightarrow> getitem2 td ''table'' field = Inr v"
  by (auto simp: declared_def getitem2_def split: json.splits option.splits)

lemma create_parse_task_declared:
  assumes "declared td ''table_name'' = Some (JStr n)"
  shows "create_parse_task env td d =
     (case construct env (PythonOperator n (parse_task td) 60) d of
        Inl e \<Rightarrow> Inl e
      | Inr d' \<Rightarrow>
         (case ref_dependencies env td of
            Inl e \<Rightarrow> Inl e
          | Inr ds \<Rightarrow> Inr (d', PythonOperator n (parse_task td) 60, ds)))"
  using declared_getitem2 [OF assms]
  by (simp add: create_parse_task_def ref_dependencies_def Let_def split: sum.splits json.splits)

lemma parse_tasks_loop_Inr:
  assumes "\<forall>p \<in> set ps. declared (read_json_file env p) ''table_name'' = Some (JStr (file_name_of p))"
    and "\<forall>p \<in> set ps. \<exists>rs. ref_dependencies env (read_json_file env p) = Inr rs"
    and "distinct (map file_name_of ps)"
    and "file_name_of ` set ps \<inter> fst ` set apt = {}"
    and "file_name_of ` set ps \<inter> fst ` set tdeps = {}"
    and "\<forall>p \<in> set ps. validate_key env (file_name_of p)"
    and "file_name_of ` set ps \<inter> task_id ` set (tasks d) = {}"
  shows "\<exists>d'. parse_tasks_loop env ps (d, apt, tdeps) =
            Inr (d', apt @ map (\<lambda>p. (file_name_of p, parse_operator_of env p)) ps,
                 tdeps @ map (\<lambda>p. (file_name_of p, dependencies_of env p)) ps) \<and>
          tasks d' = tasks d @ map (parse_operator_of env) ps \<and>
          dag_id d' = dag_id d \<and>
          set (edges d') = set (edges d) \<union>
             (\<lambda>p. (wait_for_ethereum_load_dag_task, parse_operator_of env p)) ` set ps"
  using assms
proof (induction ps arbitrary: d apt tdeps)
  case Nil
  then show ?case by simp
next
  case (Cons p ps)
  from Cons.prems(2) obtain ds where ds: "ref_dependencies env (read_json_file env p) = Inr ds"
    by auto
  then have dep: "dependencies_of env p = ds" by (simp add: dependencies_of_def)
  have decl: "declared (read_json_file env p) ''table_name'' = Some (JStr (file_name_of p))"
    using Cons.prems(1) by simp
  let ?op = "parse_operator_of env p"
  let ?d1 = "set_downstream wait_for_ethereum_load_dag_task ?op (add_task ?op d)"
  let ?apt1 = "apt @ [(file_name_of p, ?op)]"
  let ?td1 = "tdeps @ [(file_name_of p, ds)]"
  have fresh: "file_name_of p \<notin> fst ` set apt" "file_name_of p \<notin> fst ` set tdeps"
    using Cons.prems(4,5) by auto
  have "validate_key env (task_id ?op)" "task_id ?op \<notin> task_id ` set (tasks d)"
    using Cons.prems(6,7) by auto
  then have c: "construct env ?op d = Inr (add_task ?op d)" by (rule construct_Inr)
  have c': "construct env (PythonOperator (file_name_of p) (parse_task (read_json_file env p)) 60) d
      = Inr (add_task ?op d)"
    using c by (simp add: parse_operator_of_def)
  have step: "parse_tasks_loop env (p # ps) (d, apt, tdeps) = parse_tasks_loop env ps (?d1, ?apt1, ?td1)"
    using fresh by (simp add: create_parse_task_declared [OF decl] c' ds parse_operator_of_def update_fresh)
  have "\<exists>d'. parse_tasks_loop env ps (?d1, ?apt1, ?td1) =
            Inr (d', ?apt1 @ map (\<lambda>p. (file_name_of p, parse_operator_of env p)) ps,
                 ?td1 @ map (\<lambda>p. (file_name_of p, dependencies_of env p)) ps) \<and>
          tasks d' = tasks ?d1 @ map (parse_operator_of env) ps \<and>
          dag_id d' = dag_id ?d1 \<and>
          set (edges d') = set (edges ?d1) \<union>
             (\<lambda>p. (wait_for_ethereum_load_dag_task, parse_operator_of env p)) ` set ps"
  proof (rule Cons.IH)
    show "\<forall>p \<in> set ps. declared (read_json_file env p) ''table_name'' = Some (JStr (file_name_of p))"
      using Cons.prems(1) by simp
    show "\<forall>p \<in> set ps. \<exists>rs. ref_dependencies env (read_json_file env p) = Inr rs"
      using Cons.prems(2) by simp
    show "distinct (map file_name_of ps)" using Cons.prems(3) by simp
    show "file_name_of ` set ps \<inter> fst ` set ?apt1 = {}"
      using Cons.prems(3,4) by auto
    show "file_name_of ` set ps \<inter> fst ` set ?td1 = {}"
      using Cons.prems(3,5) by auto
    show "\<forall>p \<in> set ps. validate_key env (file_name_of p)"
      using Cons.prems(6) by simp
    show "file_name_of ` set ps \<inter> task_id ` set (tasks ?d1) = {}"
      using Cons.prems(3,7) by auto
  qed
  then obtain d' where d': "parse_tasks_loop env ps (?d1, ?apt1, ?td1) =
            Inr (d', ?apt1 @ map (\<lambda>p. (file_name_of p, parse_operator_of env p)) ps,
                 ?td1 @ map (\<lambda>p. (file_name_of p, dependencies_of env p)) ps)"
      "tasks d' = tasks ?d1 @ map (parse_operator_of env) ps"
      "dag_id d' = dag_id ?d1"
      "set (edges d') = set (edges ?d1) \<union>
             (\<lambda>p. (wait_for_ethereum_load_dag_task, parse_operator_of env p)) ` set ps"
    by blast
  show ?case
    unfolding step using d' dep by auto
qed

lemma parse_tasks_loop_necessary:
  assumes "\<forall>p \<in> set ps. declared (read_json_file env p) ''table_name'' = Some (JStr (file_name_of p))"
    and "parse_tasks_loop env ps st = Inr st'"
  shows "\<forall>p \<in> set ps. (\<exists>rs. ref_dependencies env (read_json_file env p) = Inr rs) \<and>
           validate_key env (file_name_of p) \<and>
           file_name_of p \<notin> task_id ` set (tasks (fst st))"
  using assms
proof (induction ps arbitrary: st)
  case Nil
  then show ?case by simp
next
  case (Cons q ps)
  obtain d apt tdeps where st: "st = (d, apt, tdeps)" by (cases st) auto
  have decl: "declared (read_json_file env q) ''table_name'' = Some (JStr (file_name_of q))"
    using Cons.prems(1) by simp
  let ?op = "PythonOperator (file_name_of q) (parse_task (read_json_file env q)) 60"
  from Cons.prems(2) obtain d1 rs where
    c: "construct env ?op d = Inr d1" and r: "ref_dependencies env (read_json_file env q) = Inr rs"
    and rest: "parse_tasks_loop env ps
        (set_downstream wait_for_ethereum_load_dag_task ?op d1,
         AList.update (file_name_of q) ?op apt,
         AList.update (file_name_of q) rs tdeps) = Inr st'"
    by (auto simp: st create_parse_task_declared [OF decl] split: sum.splits)
  from c have q: "validate_key env (file_name_of q)" "file_name_of q \<notin> task_id ` set (tasks d)"
    and d1: "d1 = add_task ?op d"
    by (simp_all add: construct_Inr_iff)
  have "\<forall>p \<in> set ps. (\<exists>rs. ref_dependencies env (read_json_file env p) = Inr rs) \<and>
           validate_key env (file_name_of p) \<and>
           file_name_of p \<notin> task_id ` set (tasks (fst
             (set_downstream wait_for_ethereum_load_dag_task ?op d1,
              AList.update (file_name_of q) ?op apt,
              AList.update (file_name_of q) rs tdeps)))"
    by (rule Cons.IH [OF _ rest]) (use Cons.prems(1) in simp)
  then have "\<forall>p \<in> set ps. (\<exists>rs. ref_dependencies env (read_json_file env p) = Inr rs) \<and>
           validate_key env (file_name_of p) \<and> file_name_of p \<notin> task_id ` set (tasks d)"
    by (simp add: d1)
  then show ?case using q r by (simp add: st)
qed

lemma wire_dependencies_Inr:
  assumes "map_of apt task = Some t"
    and "\<forall>dep \<in> set deps. map_of apt dep \<noteq> None"
  shows "\<exists>d'. wire_dependencies apt task deps d = Inr d' \<and> tasks d' = tasks d \<and>
           dag_id d' = dag_id d \<and>
           set (edges d') = set (edges d) \<union> (\<lambda>dep. (the (map_of apt dep), t)) ` set deps"
  using assms
proof (induction deps arbitrary: d)
  case Nil
  then show ?case by simp
next
  case (Cons dep deps)
  then obtain u where u: "map_of apt dep = Some u" by auto
  from Cons.IH [of "set_downstream u t d"] Cons.prems
  obtain d' where "wire_dependencies apt task deps (set_downstream u t d) = Inr d'"
    "tasks d' = tasks d" "dag_id d' = dag_id d"
    "set (edges d') = insert (u, t) (set (edges d)) \<union> (\<lambda>dep. (the (map_of apt dep), t)) ` set deps"
    by auto
  then show ?case using u Cons.prems(1) by auto
qed

lemma wire_dependencies_Inl:
  assumes "map_of apt task = Some t"
    and "\<exists>dep \<in> set deps. map_of apt dep = None"
  shows "\<exists>dep \<in> set deps. map_of apt dep = None \<and>
           wire_dependencies apt task deps d = Inl (ValueError (not_found_message dep))"
  using assms
proof (induction deps arbitrary: d)
  case Nil
  then show ?case by simp
next
  case (Cons dep deps)
  show ?case
  proof (cases "map_of apt dep")
    case None
    then show ?thesis by auto
  next
    case (Some u)
    then have "\<exists>dep \<in> set deps. map_of apt dep = None" using Cons.prems(2) by auto
    from Cons.IH [OF Cons.prems(1) this, of "set_downstream u t d"]
    show ?thesis using Some Cons.prems(1) by auto
  qed
qed

lemma wire_loop_Inr:
  assumes "\<forall>(task, deps) \<in> set items. map_of apt task \<noteq> None"
    and "\<forall>(task, deps) \<in> set items. \<forall>dep \<in> set deps. map_of apt dep \<noteq> None"
  shows "\<exists>d'. wire_loop apt items d = Inr d' \<and> tasks d' = tasks d \<and> dag_id d' = dag_id d \<and>
           set (edges d') = set (edges d) \<union> wired apt items"
  using assms
proof (induction items arbitrary: d)
  case Nil
  then show ?case by (simp add: wired_def)
next
  case (Cons item items)
  obtain task deps where item: "item = (task, deps)" by (cases item) auto
  from Cons.prems(1) item obtain t where t: "map_of apt task = Some t" by auto
  have "\<forall>dep \<in> set deps. map_of apt dep \<noteq> None" using Cons.prems(2) item by auto
  from wire_dependencies_Inr [OF t this, of d]
  obtain d1 where d1: "wire_dependencies apt task deps d = Inr d1" "tasks d1 = tasks d"
    "dag_id d1 = dag_id d"
    "set (edges d1) = set (edges d) \<union> (\<lambda>dep. (the (map_of apt dep), t)) ` set deps"
    by blast
  let ?d2 = "set_downstream t checkpoint_task d1"
  have "\<exists>d'. wire_loop apt items ?d2 = Inr d' \<and> tasks d' = tasks ?d2 \<and> dag_id d' = dag_id ?d2 \<and>
           set (edges d') = set (edges ?d2) \<union> wired apt items"
    by (rule Cons.IH) (use Cons.prems in auto)
  then obtain d' where d': "wire_loop apt items ?d2 = Inr d'" "tasks d' = tasks ?d2"
    "dag_id d' = dag_id ?d2" "set (edges d') = set (edges ?d2) \<union> wired apt items"
    by blast
  have run: "wire_loop apt (item # items) d = Inr d'"
    using item d1(1) t d'(1) by simp
  have w: "wired apt (item # items) =
      insert (t, checkpoint_task) ((\<lambda>dep. (the (map_of apt dep), t)) ` set deps) \<union> wired apt items"
    by (simp add: wired_def item t)
  have e: "set (edges d') = set (edges d) \<union> wired apt (item # items)"
    unfolding d'(4) w using d1(4) by auto
  show ?case using run e d'(2,3) d1(2,3) by simp
qed

lemma wire_loop_Inl:
  assumes "\<forall>(task, deps) \<in> set items. map_of apt task \<noteq> None"
    and "\<exists>(task, deps) \<in> set items. \<exists>dep \<in> set deps. map_of apt dep = None"
  shows "\<exists>(task, deps) \<in> set items. \<exists>dep \<in> set deps. map_of apt dep = None \<and>
           wire_loop apt items d = Inl (ValueError (not_found_message dep))"
  using assms
proof (induction items arbitrary: d)
  case Nil
  then show ?case by simp
next
  case (Cons item items)
  obtain task deps where item: "item = (task, deps)" by (cases item) auto
  from Cons.prems(1) item obtain t where t: "map_of apt task = Some t" by auto
  show ?case
  proof (cases "\<exists>dep \<in> set deps. map_of apt dep = None")
    case True
    from wire_dependencies_Inl [OF t True, of d]
    show ?thesis using item by auto
  next
    case False
    then have "\<forall>dep \<in> set deps. map_of apt dep \<noteq> None" by simp
    from wire_dependencies_Inr [OF t this, of d]
    obtain d1 where d1: "wire_dependencies apt task deps d = Inr d1" by blast
    have rest: "\<exists>(task, deps) \<in> set items. \<exists>dep \<in> set deps. map_of apt dep = None"
      using Cons.prems(2) False item by auto
    have "\<forall>(task, deps) \<in> set items. map_of apt task \<noteq> None" using Cons.prems(1) by auto
    from Cons.IH [OF this rest, of "set_downstream t checkpoint_task d1"]
    show ?thesis using item d1 t by auto
  qed
qed

lemma views_loop_Inr_elim:
  "views_loop env full ss d = Inr d' \<Longrightarrow>
   tasks d' = tasks d @ map (view_operator_of env full) ss \<and>
   dag_id d' = dag_id d \<and>
   set (edges d') =
     set (edges d) \<union> (\<lambda>s. (checkpoint_task, view_operator_of env full s)) ` set ss"
proof (induction ss arbitrary: d)
  case Nil
  then show ?case by simp
next
  case (Cons s ss)
  let ?v = "view_operator_of env full s"
  from Cons.prems obtain d1 where c: "construct env ?v d = Inr d1"
    and rest: "views_loop env full ss (set_downstream checkpoint_task ?v d1) = Inr d'"
    by (auto simp: create_add_view_task_def Let_def view_operator_of_def split: sum.splits)
  from c have d1: "d1 = add_task ?v d" by (simp add: construct_Inr_iff)
  from Cons.IH [OF rest] show ?case by (simp add: d1)
qed

lemma map_of_map_at:
  "distinct (map f ps) \<Longrightarrow> p \<in> set ps \<Longrightarrow> map_of (map (\<lambda>p. (f p, g p)) ps) (f p) = Some (g p)"
  by (induction ps) (auto simp: image_iff)

lemma map_of_map_None:
  "map_of (map (\<lambda>p. (f p, g p)) ps) k = None \<longleftrightarrow> k \<notin> f ` set ps"
  by (induction ps) auto

lemma wired_files:
  assumes dist: "distinct (map file_name_of ps)"
    and res: "\<forall>p \<in> set ps. set (deps p) \<subseteq> file_name_of ` set ps"
  shows "wired (map (\<lambda>p. (file_name_of p, opr p)) ps) (map (\<lambda>p. (file_name_of p, deps p)) ps) =
      (\<Union>p \<in> set ps. \<Union>q \<in> set ps. if file_name_of q \<in> set (deps p) then {(opr q, opr p)} else {})
       \<union> (\<lambda>p. (opr p, checkpoint_task)) ` set ps"
proof -
  let ?apt = "map (\<lambda>p. (file_name_of p, opr p)) ps"
  have at: "\<And>p. p \<in> set ps \<Longrightarrow> the (map_of ?apt (file_name_of p)) = opr p"
    using map_of_map_at [OF dist, of _ opr] by simp
  have one: "(\<lambda>dep. (the (map_of ?apt dep), opr p)) ` set (deps p) =
      (\<Union>q \<in> set ps. if file_name_of q \<in> set (deps p) then {(opr q, opr p)} else {})"
    if p: "p \<in> set ps" for p
  proof (rule set_eqI, rule iffI)
    fix e assume "e \<in> (\<lambda>dep. (the (map_of ?apt dep), opr p)) ` set (deps p)"
    then obtain dep where dep: "dep \<in> set (deps p)" "e = (the (map_of ?apt dep), opr p)" by auto
    with res p obtain q where q: "q \<in> set ps" "dep = file_name_of q" by auto
    then have "e = (opr q, opr p)" using dep at by simp
    then show "e \<in> (\<Union>q \<in> set ps. if file_name_of q \<in> set (deps p) then {(opr q, opr p)} else {})"
      using q dep by auto
  next
    fix e assume "e \<in> (\<Union>q \<in> set ps. if file_name_of q \<in> set (deps p) then {(opr q, opr p)} else {})"
    then obtain q where q: "q \<in> set ps" "file_name_of q \<in> set (deps p)" "e = (opr q, opr p)"
      by (auto split: if_splits)
    then have "e = (the (map_of ?apt (file_name_of q)), opr p)" using at by simp
    then show "e \<in> (\<lambda>dep. (the (map_of ?apt dep), opr p)) ` set (deps p)"
      using q(2) by blast
  qed
  have "wired ?apt (map (\<lambda>p. (file_name_of p, deps p)) ps) =
      (\<Union>p \<in> set ps. insert (opr p, checkpoint_task)
          ((\<lambda>dep. (the (map_of ?apt dep), opr p)) ` set (deps p)))"
    using at by (simp add: wired_def)
  also have "\<dots> = (\<Union>p \<in> set ps. insert (opr p, checkpoint_task)
      (\<Union>q \<in> set ps. if file_name_of q \<in> set (deps p) then {(opr q, opr p)} else {}))"
    using one by simp
  also have "\<dots> = (\<Union>p \<in> set ps. \<Union>q \<in> set ps. if file_name_of q \<in> set (deps p) then {(opr q, opr p)} else {})
       \<union> (\<lambda>p. (opr p, checkpoint_task)) ` set ps"
    by blast
  finally show ?thesis .
qed

section \<open>Lemmas on the build as a whole\<close>


lemma construct_sensor:
  "construct env wait_for_ethereum_load_dag_task (start_dag dag_id0 pap) =
     Inr (add_task wait_for_ethereum_load_dag_task (start_dag dag_id0 pap))"
  by (rule construct_Inr) (simp_all add: start_dag_def)

lemma build_after_validation:
  assumes "validate_definition_files env folder = Inr u"
  shows "build_parse_dag env dag_id0 folder pap =
     (case parse_tasks_loop env (get_list_of_files env folder ''*.json'')
             (add_task wait_for_ethereum_load_dag_task (start_dag dag_id0 pap), [], []) of
        Inl e \<Rightarrow> Inl e
      | Inr (d2, all_parse_tasks, task_dependencies) \<Rightarrow>
         (case construct env checkpoint_task d2 of
            Inl e \<Rightarrow> Inl e
          | Inr d3 \<Rightarrow>
             (case wire_loop all_parse_tasks task_dependencies d3 of
                Inl e \<Rightarrow> Inl e
              | Inr d4 \<Rightarrow>
                  views_loop env (''polygon_'' @ basename folder)
                     (get_list_of_files env folder ''*.sql'') d4)))"
  using assms construct_sensor [of env dag_id0 pap]
  by (simp add: build_parse_dag_def start_dag_def Let_def split: sum.splits prod.splits)

lemma build_parsed:
  assumes v: "validate_definition_files env folder = Inr u"
    and r: "\<forall>p \<in> set (get_list_of_files env folder ''*.json'').
              \<exists>rs. ref_dependencies env (read_json_file env p) = Inr rs"
    and k: "\<forall>p \<in> set (get_list_of_files env folder ''*.json''). validate_key env (file_name_of p)"
    and s: "task_id wait_for_ethereum_load_dag_task
              \<notin> file_name_of ` set (get_list_of_files env folder ''*.json'')"
  shows "\<exists>d2. parse_tasks_loop env (get_list_of_files env folder ''*.json'')
             (add_task wait_for_ethereum_load_dag_task (start_dag dag_id0 pap), [], []) =
           Inr (d2, map (\<lambda>p. (file_name_of p, parse_operator_of env p)) (get_list_of_files env folder ''*.json''),
                map (\<lambda>p. (file_name_of p, dependencies_of env p)) (get_list_of_files env folder ''*.json'')) \<and>
         tasks d2 = wait_for_ethereum_load_dag_task #
                      map (parse_operator_of env) (get_list_of_files env folder ''*.json'') \<and>
         dag_id d2 = dag_id (start_dag dag_id0 pap) \<and>
         set (edges d2) = (\<lambda>p. (wait_for_ethereum_load_dag_task, parse_operator_of env p)) `
                             set (get_list_of_files env folder ''*.json'')"
proof -
  have f: "file_name_of ` set (get_list_of_files env folder ''*.json'') \<inter>
      task_id ` set (tasks (add_task wait_for_ethereum_load_dag_task (start_dag dag_id0 pap))) = {}"
    using s by (auto simp: start_dag_def)
  show ?thesis
    using parse_tasks_loop_Inr [OF validated_files(1) [OF v] r validated_files(2) [OF v] _ _ k f,
          of "[]" "[]"]
    by (simp add: start_dag_def)
qed

lemma build_parsed_elim:
  assumes v: "validate_definition_files env folder = Inr u"
    and l: "parse_tasks_loop env (get_list_of_files env folder ''*.json'')
             (add_task wait_for_ethereum_load_dag_task (start_dag dag_id0 pap), [], []) =
           Inr (d2, apt, tdeps)"
  shows "(\<forall>p \<in> set (get_list_of_files env folder ''*.json'').
              \<exists>rs. ref_dependencies env (read_json_file env p) = Inr rs)"
    and "apt = map (\<lambda>p. (file_name_of p, parse_operator_of env p)) (get_list_of_files env folder ''*.json'')"
    and "tdeps = map (\<lambda>p. (file_name_of p, dependencies_of env p)) (get_list_of_files env folder ''*.json'')"
    and "tasks d2 = wait_for_ethereum_load_dag_task #
                      map (parse_operator_of env) (get_list_of_files env folder ''*.json'')"
    and "dag_id d2 = dag_id (start_dag dag_id0 pap)"
    and "set (edges d2) = (\<lambda>p. (wait_for_ethereum_load_dag_task, parse_operator_of env p)) `
                             set (get_list_of_files env folder ''*.json'')"
proof -
  note n = parse_tasks_loop_necessary [OF validated_files(1) [OF v] l]
  show r: "\<forall>p \<in> set (get_list_of_files env folder ''*.json'').
              \<exists>rs. ref_dependencies env (read_json_file env p) = Inr rs"
    using n by blast
  have k: "\<forall>p \<in> set (get_list_of_files env folder ''*.json''). validate_key env (file_name_of p)"
    using n by blast
  have s: "task_id wait_for_ethereum_load_dag_task
              \<notin> file_name_of ` set (get_list_of_files env folder ''*.json'')"
    using n by (auto simp: start_dag_def)
  from build_parsed [OF v r k s, of dag_id0 pap] l
  show "apt = map (\<lambda>p. (file_name_of p, parse_operator_of env p)) (get_list_of_files env folder ''*.json'')"
    and "tdeps = map (\<lambda>p. (file_name_of p, dependencies_of env p)) (get_list_of_files env folder ''*.json'')"
    and "tasks d2 = wait_for_ethereum_load_dag_task #
                      map (parse_operator_of env) (get_list_of_files env folder ''*.json'')"
    and "dag_id d2 = dag_id (start_dag dag_id0 pap)"
    and "set (edges d2) = (\<lambda>p. (wait_for_ethereum_load_dag_task, parse_operator_of env p)) `
                             set (get_list_of_files env folder ''*.json'')"
    by auto
qed


lemma build_Inr_elim:
  assumes v: "validate_definition_files env folder = Inr u"
    and b: "build_parse_dag env dag_id0 folder pap = Inr d"
  shows "(\<forall>p \<in> set (get_list_of_files env folder ''*.json'').
              \<exists>rs. ref_dependencies env (read_json_file env p) = Inr rs)"
    and "(\<forall>p \<in> set (get_list_of_files env folder ''*.json'').
              set (dependencies_of env p) \<subseteq> file_name_of ` set (get_list_of_files env folder ''*.json''))"
    and "tasks d = wait_for_ethereum_load_dag_task #
                       map (parse_operator_of env) (get_list_of_files env folder ''*.json'') @
                     checkpoint_task #
                       map (view_operator_of env (''polygon_'' @ basename folder))
                         (get_list_of_files env folder ''*.sql'')"
    and "set (edges d) = graph_edges env folder"
    and "dag_id d = dag_id (start_dag dag_id0 pap)"
proof -
  let ?ps = "get_list_of_files env folder ''*.json''"
  let ?ss = "get_list_of_files env folder ''*.sql''"
  let ?apt = "map (\<lambda>p. (file_name_of p, parse_operator_of env p)) ?ps"
  let ?items = "map (\<lambda>p. (file_name_of p, dependencies_of env p)) ?ps"
  from b obtain d2 apt tdeps d3 d4 where
    l: "parse_tasks_loop env ?ps
          (add_task wait_for_ethereum_load_dag_task (start_dag dag_id0 pap), [], []) = Inr (d2, apt, tdeps)"
    and c: "construct env checkpoint_task d2 = Inr d3"
    and w: "wire_loop apt tdeps d3 = Inr d4"
    and vl: "views_loop env (''polygon_'' @ basename folder) ?ss d4 = Inr d"
    by (auto simp: build_after_validation [OF v] split: sum.splits prod.splits)
  note pe = build_parsed_elim [OF v l]
  show r: "\<forall>p \<in> set ?ps. \<exists>rs. ref_dependencies env (read_json_file env p) = Inr rs"
    by (rule pe(1))
  have apt: "apt = ?apt" and tdeps: "tdeps = ?items" by (rule pe(2), rule pe(3))
  have d3: "d3 = add_task checkpoint_task d2" using c by (simp add: construct_Inr_iff)
  have keys: "\<forall>(task, deps) \<in> set ?items. map_of ?apt task \<noteq> None"
    by (auto simp: map_of_map_None)
  have res: "\<forall>(task, deps) \<in> set ?items. \<forall>dep \<in> set deps. map_of ?apt dep \<noteq> None"
  proof (rule ccontr)
    assume "\<not> ?thesis"
    then have "\<exists>(task, deps) \<in> set ?items. \<exists>dep \<in> set deps. map_of ?apt dep = None"
      by (simp add: split_beta)
    from wire_loop_Inl [OF keys this, of d3] w show False
      by (auto simp: apt tdeps)
  qed
  show m: "\<forall>p \<in> set ?ps. set (dependencies_of env p) \<subseteq> file_name_of ` set ?ps"
    using res by (auto simp: map_of_map_None)
  from wire_loop_Inr [OF keys res, of d3] w
  have t4: "tasks d4 = tasks d3" and i4: "dag_id d4 = dag_id d3"
    and e4: "set (edges d4) = set (edges d3) \<union> wired ?apt ?items"
    by (auto simp: apt tdeps)
  have wf: "wired ?apt ?items =
      (\<Union>p \<in> set ?ps. \<Union>q \<in> set ?ps.
          if file_name_of q \<in> set (dependencies_of env p)
          then {(parse_operator_of env q, parse_operator_of env p)} else {})
       \<union> (\<lambda>p. (parse_operator_of env p, checkpoint_task)) ` set ?ps"
    by (rule wired_files [OF validated_files(2) [OF v] m])
  note ve = views_loop_Inr_elim [OF vl]
  show "tasks d = wait_for_ethereum_load_dag_task # map (parse_operator_of env) ?ps @
                     checkpoint_task # map (view_operator_of env (''polygon_'' @ basename folder)) ?ss"
    using ve by (simp add: t4 d3 pe(4))
  show "set (edges d) = graph_edges env folder"
    using ve by (simp add: e4 d3 pe(6) wf graph_edges_def Let_def Un_assoc)
  show "dag_id d = dag_id (start_dag dag_id0 pap)"
    using ve by (simp add: i4 d3 pe(5))
qed

lemma in_graph_edges_iff:
  "(u, t) \<in> graph_edges env folder \<longleftrightarrow>
     (u = wait_for_ethereum_load_dag_task \<and>
        t \<in> parse_operator_of env ` set (get_list_of_files env folder ''*.json'')) \<or>
     (\<exists>p \<in> set (get_list_of_files env folder ''*.json'').
        \<exists>q \<in> set (get_list_of_files env folder ''*.json'').
          file_name_of q \<in> set (dependencies_of env p) \<and>
          u = parse_operator_of env q \<and> t = parse_operator_of env p) \<or>
     (u \<in> parse_operator_of env ` set (get_list_of_files env folder ''*.json'') \<and>
        t = checkpoint_task) \<or>
     (u = checkpoint_task \<and>
        t \<in> view_operator_of env (''polygon_'' @ basename folder) `
              set (get_list_of_files env folder ''*.sql''))"
  by (auto simp: graph_edges_def Let_def split: if_splits)

lemma upstream_iff: "u \<in> upstream d t \<longleftrightarrow> (u, t) \<in> set (edges d)"
  by (auto simp: upstream_def image_iff)

lemma operator_kinds [simp]:
  "is_sensor wait_for_ethereum_load_dag_task"
  "\<not> is_sensor checkpoint_task"
  "\<not> is_sensor (parse_operator_of env p)"
  "\<not> is_sensor (view_operator_of env f s)"
  "\<not> is_parse_task wait_for_ethereum_load_dag_task"
  "\<not> is_parse_task checkpoint_task"
  "is_parse_task (parse_operator_of env p)"
  "\<not> is_parse_task (view_operator_of env f s)"
  "\<not> is_view_task wait_for_ethereum_load_dag_task"
  "\<not> is_view_task checkpoint_task"
  "\<not> is_view_task (parse_operator_of env p)"
  "is_view_task (view_operator_of env f s)"
  by (simp_all add: wait_for_ethereum_load_dag_task_def checkpoint_task_def
        parse_operator_of_def view_operator_of_def)

lemma filter_map_all: "(\<And>x. P (f x)) \<Longrightarrow> filter P (map f xs) = map f xs"
  by (induction xs) auto

lemma filter_map_none: "(\<And>x. \<not> P (f x)) \<Longrightarrow> filter P (map f xs) = []"
  by (induction xs) auto

lemma parse_operator_of_inj:
  "parse_operator_of env p = parse_operator_of env q \<Longrightarrow> file_name_of p = file_name_of q"
  by (simp add: parse_operator_of_def)

lemma operators_differ [simp]:
  "parse_operator_of env p \<noteq> wait_for_ethereum_load_dag_task"
  "parse_operator_of env p \<noteq> checkpoint_task"
  "parse_operator_of env p \<noteq> view_operator_of env f s"
  "view_operator_of env f s \<noteq> wait_for_ethereum_load_dag_task"
  "view_operator_of env f s \<noteq> checkpoint_task"
  "view_operator_of env f s \<noteq> parse_operator_of env p"
  "checkpoint_task \<noteq> wait_for_ethereum_load_dag_task"
  by (simp_all add: wait_for_ethereum_load_dag_task_def checkpoint_task_def
        parse_operator_of_def view_operator_of_def)

lemma upstream_of_view:
  assumes "set (edges d) = graph_edges env dataset_folder"
    and "s \<in> set (get_list_of_files env dataset_folder ''*.sql'')"
  shows "upstream d (view_operator_of env (''polygon_'' @ basename dataset_folder) s) = {checkpoint_task}"
proof (rule set_eqI)
  fix u
  have "(u, view_operator_of env (''polygon_'' @ basename dataset_folder) s)
          \<in> graph_edges env dataset_folder \<longleftrightarrow> u = checkpoint_task"
    unfolding in_graph_edges_iff using assms(2) by auto
  then show "u \<in> upstream d (view_operator_of env (''polygon_'' @ basename dataset_folder) s)
      \<longleftrightarrow> u \<in> {checkpoint_task}"
    by (simp add: upstream_iff assms(1))
qed

lemma no_downstream_of_view:
  assumes "set (edges d) = graph_edges env dataset_folder"
  shows "(view_operator_of env f s, t) \<notin> set (edges d)"
  unfolding assms in_graph_edges_iff by auto

section \<open>Task ids that Airflow refuses\<close>

text \<open>
  The folder \<open>env_bad_key\<close> passes validation, and the build raises when the parse operator
  of the table \<^verbatim>\<open>my table\<close> is constructed (line 106). In the folder \<open>env_checkpoint_name\<close>
  the table has the task id of the checkpoint and refers to a table that is not defined:
  the build raises when the checkpoint is constructed (line 166), before the dependencies
  are looked at.
\<close>

lemma invalid_task_id_raises:
  "validate_definition_files env_bad_key ''defs/ds'' = Inr () \<and>
   build_parse_dag env_bad_key ''dag'' ''defs/ds'' False = Inl (AirflowException ''my table'')"
  by code_simp

lemma duplicate_task_id_raises:
  "validate_definition_files env_checkpoint_name ''defs/ds'' = Inr () \<and>
   ref_dependencies env_checkpoint_name
     (read_json_file env_checkpoint_name ''defs/ds/parse_all_checkpoint.json'') = Inr [''A''] \<and>
   build_parse_dag env_checkpoint_name ''dag'' ''defs/ds'' False =
     Inl (DuplicateTaskIdFound ''parse_all_checkpoint'')"
  by code_simp

section \<open>The placeholder graph\<close>



section \<open>The sensor\<close>

text \<open>
  Claim C8. When the folder has passed validation and \<open>build_parse_dag\<close> returns a graph,
  that graph has exactly one sensor, \<open>wait_for_ethereum_load_dag_task\<close>. It waits for the task
  \<^verbatim>\<open>done\<close> of the DAG \<^verbatim>\<open>polygon_partition_dag\<close>, with an execution delta of 30 minutes, 20
  retries, a timeout of 60 * 60 * 30 seconds, a poke interval of 5 * 60 seconds and the mode
  \<^verbatim>\<open>reschedule\<close>. Every parse operator of the graph has a dependency on the sensor, and the
  parse operators are those of the JSON files of the folder, one for each.
\<close>

theorem sensor_upstream_of_parse_tasks:
  assumes "validate_definition_files env dataset_folder = Inr ()"
    and "build_parse_dag env dag_id0 dataset_folder parse_all_partitions = Inr d"
  shows "filter is_sensor (tasks d) = [wait_for_ethereum_load_dag_task] \<and>
         external_dag_id wait_for_ethereum_load_dag_task = ''polygon_partition_dag'' \<and>
         external_task_id wait_for_ethereum_load_dag_task = ''done'' \<and>
         execution_delta wait_for_ethereum_load_dag_task = 30 \<and>
         retries wait_for_ethereum_load_dag_task = 20 \<and>
         timeout wait_for_ethereum_load_dag_task = 60 * 60 * 30 \<and>
         poke_interval wait_for_ethereum_load_dag_task = 5 * 60 \<and>
         mode wait_for_ethereum_load_dag_task = ''reschedule'' \<and>
         (\<forall>t \<in> set (tasks d). is_parse_task t \<longrightarrow>
            (wait_for_ethereum_load_dag_task, t) \<in> set (edges d)) \<and>
         filter is_parse_task (tasks d) =
           map (parse_operator_of env) (get_list_of_files env dataset_folder ''*.json'')"
proof -
  note t = build_Inr_elim(3) [OF assms] and e = build_Inr_elim(4) [OF assms]
  have "filter is_sensor (tasks d) = [wait_for_ethereum_load_dag_task]"
    by (simp add: t filter_map_none)
  moreover have "\<forall>t \<in> set (tasks d). is_parse_task t \<longrightarrow>
            (wait_for_ethereum_load_dag_task, t) \<in> set (edges d)"
    unfolding e in_graph_edges_iff by (auto simp: t)
  moreover have "filter is_parse_task (tasks d) =
           map (parse_operator_of env) (get_list_of_files env dataset_folder ''*.json'')"
    by (simp add: t filter_map_none filter_map_all)
  ultimately show ?thesis
    by (simp add: wait_for_ethereum_load_dag_task_def)
qed

text \<open>The theorem at the folder \<open>env_ok\<close> and its graph \<open>dag_ok\<close>.\<close>

theorem sensor_upstream_of_parse_tasks_witness:
  "validate_definition_files env_ok ''defs/ds'' = Inr () \<and>
   build_parse_dag env_ok ''dag'' ''defs/ds'' False = Inr dag_ok \<and>
   filter is_sensor (tasks dag_ok) = [wait_for_ethereum_load_dag_task] \<and>
   filter is_parse_task (tasks dag_ok) = [op_A, op_B] \<and>
   (wait_for_ethereum_load_dag_task, op_A) \<in> set (edges dag_ok) \<and>
   (wait_for_ethereum_load_dag_task, op_B) \<in> set (edges dag_ok)"
proof -
  have v: "validate_definition_files env_ok ''defs/ds'' = Inr ()"
    by code_simp
  have b: "build_parse_dag env_ok ''dag'' ''defs/ds'' False = Inr dag_ok"
    by code_simp
  have p: "filter is_parse_task (tasks dag_ok) = [op_A, op_B]"
    by code_simp
  from sensor_upstream_of_parse_tasks [OF v b] have
    "filter is_sensor (tasks dag_ok) = [wait_for_ethereum_load_dag_task]"
    "\<forall>t \<in> set (tasks dag_ok). is_parse_task t \<longrightarrow>
            (wait_for_ethereum_load_dag_task, t) \<in> set (edges dag_ok)"
    by blast+
  moreover have "op_A \<in> set (tasks dag_ok)" "op_B \<in> set (tasks dag_ok)"
    "is_parse_task op_A" "is_parse_task op_B"
    by (simp_all add: dag_ok_def op_A_def op_B_def)
  ultimately show ?thesis using v b p by blast
qed

section \<open>Errors at build time\<close>




section \<open>References to tables that are not defined\<close>




section \<open>Table names that differ by case only\<close>

text \<open>
  Claim C3, as stated, fails. The folder \<open>env_case\<close> has the definitions \<^verbatim>\<open>Foo\<close> and
  \<^verbatim>\<open>foo\<close>. Validation fails, and the message has the lower-cased name once: it does not
  have the spelling \<^verbatim>\<open>Foo\<close> (it has no \<^verbatim>\<open>F\<close> at all).
\<close>

theorem case_duplicates_reported_in_lower_case:
  "get_list_of_files env_case ''defs/ds'' ''*.json'' = [''defs/ds/Foo.json'', ''defs/ds/foo.json''] \<and>
   declared (read_json_file env_case ''defs/ds/Foo.json'') ''table_name'' = Some (JStr ''Foo'') \<and>
   declared (read_json_file env_case ''defs/ds/foo.json'') ''table_name'' = Some (JStr ''foo'') \<and>
   validate_definition_files env_case ''defs/ds'' =
     Inl (ValueError ''The following table names are not unique foo'') \<and>
   CHR ''F'' \<notin> set ''The following table names are not unique foo''"
  by code_simp

text \<open>
  Claim C3, amended. When two definitions of the folder, at different places of the listing,
  declare table names that are equal after lower-casing, validation fails. When in addition
  every definition passes the checks on its own file, the error is one \<^verbatim>\<open>ValueError\<close> whose
  message is \<^verbatim>\<open>The following table names are not unique\<close> followed by the lower-cased
  table names that occur more than once among the lower-cased names, each of them once,
  with a comma between one and the next; the common lower-cased name of the two definitions
  is one of them.
\<close>

theorem case_insensitive_duplicates:
  assumes "i < j" and "j < length (get_list_of_files env dataset_folder ''*.json'')"
    and "declared (read_json_file env (get_list_of_files env dataset_folder ''*.json'' ! i))
           ''table_name'' = Some (JStr a)"
    and "declared (read_json_file env (get_list_of_files env dataset_folder ''*.json'' ! j))
           ''table_name'' = Some (JStr b)"
    and "py_lower env a = py_lower env b"
  shows "(\<exists>e. validate_definition_files env dataset_folder = Inl e) \<and>
     ((\<forall>p \<in> set (get_list_of_files env dataset_folder ''*.json'').
          \<exists>n. check_definition env (last (split CHR ''/'' dataset_folder)) p = Inr n) \<longrightarrow>
        (\<exists>n rest.
           non_unique_table_names
                    (map (\<lambda>p. py_lower env (file_name_of p))
                       (get_list_of_files env dataset_folder ''*.json'')) = n # rest \<and>
           validate_definition_files env dataset_folder =
             Inl (ValueError (''The following table names are not unique '' @ n
                    @ concat (map (\<lambda>m. '','' @ m) rest)))) \<and>
        py_lower env a \<in> set (non_unique_table_names
                    (map (\<lambda>p. py_lower env (file_name_of p))
                       (get_list_of_files env dataset_folder ''*.json''))) \<and>
        distinct (non_unique_table_names
                    (map (\<lambda>p. py_lower env (file_name_of p))
                       (get_list_of_files env dataset_folder ''*.json''))) \<and>
        set (non_unique_table_names
                    (map (\<lambda>p. py_lower env (file_name_of p))
                       (get_list_of_files env dataset_folder ''*.json''))) =
          {n \<in> set (map (\<lambda>p. py_lower env (file_name_of p))
                       (get_list_of_files env dataset_folder ''*.json'')).
             1 < count_list (map (\<lambda>p. py_lower env (file_name_of p))
                       (get_list_of_files env dataset_folder ''*.json'')) n})"
proof -
  let ?ps = "get_list_of_files env dataset_folder ''*.json''"
  let ?f = "last (split CHR ''/'' dataset_folder)"
  let ?names = "map (\<lambda>p. py_lower env (file_name_of p)) ?ps"
  have i: "i < length ?ps" using assms(1,2) by simp
  have pass: "\<not> distinct ?names \<and> py_lower env a \<in> set ?names \<and> 1 < count_list ?names (py_lower env a)"
    if all: "\<forall>p \<in> set ?ps. \<exists>n. check_definition env ?f p = Inr n"
  proof -
    have "\<exists>n. check_definition env ?f (?ps ! i) = Inr n" "\<exists>n. check_definition env ?f (?ps ! j) = Inr n"
      using all i assms(2) by auto
    then have "a = file_name_of (?ps ! i)" "b = file_name_of (?ps ! j)"
      using assms(3,4) by (auto simp: check_definition_Inr_iff)
    then have eq: "?names ! i = py_lower env a" "?names ! j = py_lower env a"
      using i assms(2,5) by simp_all
    show ?thesis
      by (rule twice_in_list [OF assms(1) _ eq]) (simp add: assms(2))
  qed
  have fails: "\<exists>e. validate_definition_files env dataset_folder = Inl e"
  proof (cases "\<forall>p \<in> set ?ps. \<exists>n. check_definition env ?f p = Inr n")
    case True
    from validate_not_unique [OF True] pass [OF True] show ?thesis by blast
  next
    case False
    then obtain p e where "p \<in> set ?ps" "check_definition env ?f p = Inl e"
      by (metis sum.exhaust)
    from validate_loop_fails [OF this, of "[]"] obtain e' where
      "validate_loop env ?f ?ps [] = Inl e'" by blast
    then show ?thesis using validate_loop_Inl_validate by blast
  qed
  have msg: "(\<exists>n rest. non_unique_table_names ?names = n # rest \<and>
           validate_definition_files env dataset_folder =
             Inl (ValueError (''The following table names are not unique '' @ n
                    @ concat (map (\<lambda>m. '','' @ m) rest)))) \<and>
        py_lower env a \<in> set (non_unique_table_names ?names)"
    if all: "\<forall>p \<in> set ?ps. \<exists>n. check_definition env ?f p = Inr n"
  proof -
    have mem: "py_lower env a \<in> set (non_unique_table_names ?names)"
      using pass [OF all] by (simp add: set_non_unique_table_names)
    then obtain n rest where nr: "non_unique_table_names ?names = n # rest"
      by (cases "non_unique_table_names ?names") auto
    have "validate_definition_files env dataset_folder =
             Inl (ValueError (''The following table names are not unique '' @ n
                    @ concat (map (\<lambda>m. '','' @ m) rest)))"
      using validate_not_unique [OF all] pass [OF all]
      by (simp only: nr join_concat) simp
    with nr mem show ?thesis by blast
  qed
  show ?thesis
    using fails msg distinct_non_unique_table_names [of ?names] set_non_unique_table_names [of ?names]
    by blast
qed

text \<open>The theorem at the folder \<open>env_case_pairs\<close>, where two pairs of names collide and a fifth
  name does not.\<close>

theorem case_insensitive_duplicates_witness:
  "(0::nat) < 3 \<and> 3 < length (get_list_of_files env_case_pairs ''defs/ds'' ''*.json'') \<and>
   get_list_of_files env_case_pairs ''defs/ds'' ''*.json'' =
     [''defs/ds/Foo.json'', ''defs/ds/Bar.json'', ''defs/ds/only.json'',
      ''defs/ds/foo.json'', ''defs/ds/bar.json''] \<and>
   declared (read_json_file env_case_pairs (get_list_of_files env_case_pairs ''defs/ds'' ''*.json'' ! 0))
     ''table_name'' = Some (JStr ''Foo'') \<and>
   declared (read_json_file env_case_pairs (get_list_of_files env_case_pairs ''defs/ds'' ''*.json'' ! 3))
     ''table_name'' = Some (JStr ''foo'') \<and>
   py_lower env_case_pairs ''Foo'' = py_lower env_case_pairs ''foo'' \<and>
   map (check_definition env_case_pairs (last (split CHR ''/'' ''defs/ds'')))
     (get_list_of_files env_case_pairs ''defs/ds'' ''*.json'') =
     [Inr ''foo'', Inr ''bar'', Inr ''only'', Inr ''foo'', Inr ''bar''] \<and>
   non_unique_table_names
     (map (\<lambda>p. py_lower env_case_pairs (file_name_of p))
        (get_list_of_files env_case_pairs ''defs/ds'' ''*.json'')) = [''foo'', ''bar''] \<and>
   validate_definition_files env_case_pairs ''defs/ds'' =
     Inl (ValueError ''The following table names are not unique foo,bar'')"
proof -
  have fs: "get_list_of_files env_case_pairs ''defs/ds'' ''*.json'' =
     [''defs/ds/Foo.json'', ''defs/ds/Bar.json'', ''defs/ds/only.json'',
      ''defs/ds/foo.json'', ''defs/ds/bar.json'']"
    by code_simp
  have h1: "(0::nat) < 3" by simp
  have h2: "3 < length (get_list_of_files env_case_pairs ''defs/ds'' ''*.json'')"
    by (simp add: fs)
  have h3: "declared (read_json_file env_case_pairs (get_list_of_files env_case_pairs ''defs/ds'' ''*.json'' ! 0))
     ''table_name'' = Some (JStr ''Foo'')"
    by code_simp
  have h4: "declared (read_json_file env_case_pairs (get_list_of_files env_case_pairs ''defs/ds'' ''*.json'' ! 3))
     ''table_name'' = Some (JStr ''foo'')"
    by code_simp
  have h5: "py_lower env_case_pairs ''Foo'' = py_lower env_case_pairs ''foo''" by code_simp
  have cs: "map (check_definition env_case_pairs (last (split CHR ''/'' ''defs/ds'')))
     (get_list_of_files env_case_pairs ''defs/ds'' ''*.json'') =
     [Inr ''foo'', Inr ''bar'', Inr ''only'', Inr ''foo'', Inr ''bar'']"
    by code_simp
  have nu: "non_unique_table_names
     (map (\<lambda>p. py_lower env_case_pairs (file_name_of p))
        (get_list_of_files env_case_pairs ''defs/ds'' ''*.json'')) = [''foo'', ''bar'']"
    by code_simp
  have all: "\<forall>p \<in> set (get_list_of_files env_case_pairs ''defs/ds'' ''*.json'').
      \<exists>n. check_definition env_case_pairs (last (split CHR ''/'' ''defs/ds'')) p = Inr n"
  proof
    fix p assume p: "p \<in> set (get_list_of_files env_case_pairs ''defs/ds'' ''*.json'')"
    then have "check_definition env_case_pairs (last (split CHR ''/'' ''defs/ds'')) p
        \<in> set (map (check_definition env_case_pairs (last (split CHR ''/'' ''defs/ds'')))
                 (get_list_of_files env_case_pairs ''defs/ds'' ''*.json''))"
      by simp
    then show "\<exists>n. check_definition env_case_pairs (last (split CHR ''/'' ''defs/ds'')) p = Inr n"
      unfolding cs by auto
  qed
  from case_insensitive_duplicates [OF h1 h2 h3 h4 h5, THEN conjunct2, THEN mp, OF all]
  obtain n rest where nr:
    "non_unique_table_names
       (map (\<lambda>p. py_lower env_case_pairs (file_name_of p))
          (get_list_of_files env_case_pairs ''defs/ds'' ''*.json'')) = n # rest"
    and msg: "validate_definition_files env_case_pairs ''defs/ds'' =
       Inl (ValueError (''The following table names are not unique '' @ n
              @ concat (map (\<lambda>m. '','' @ m) rest)))"
    by blast
  from nr have "n = ''foo''" "rest = [''bar'']"
    unfolding nu by simp_all
  with msg have "validate_definition_files env_case_pairs ''defs/ds'' =
     Inl (ValueError ''The following table names are not unique foo,bar'')"
    by simp
  then show ?thesis using h1 h2 fs h3 h4 h5 cs nu by blast
qed

section \<open>Definitions that follow the naming rules\<close>

text \<open>
  Claim C6, as stated, fails. For the folder \<^verbatim>\<open>defs/ds/\<close>, given with a trailing slash, the
  folder name that the validation derives is empty. A definition that declares this empty
  dataset name is refused because the name is empty, and one that declares \<^verbatim>\<open>ds\<close> is refused
  because it differs from the derived name.
\<close>

theorem trailing_slash_folder_fails_validation:
  "get_list_of_files (env_slash []) ''defs/ds/'' ''*.json'' = [''defs/ds/t.json''] \<and>
   last (split CHR ''/'' ''defs/ds/'') = [] \<and>
   file_name_of ''defs/ds/t.json'' = ''t'' \<and>
   read_json_file (env_slash []) ''defs/ds/t.json'' =
     JObj [(''table'', JObj [(''dataset_name'', JStr []), (''table_name'', JStr ''t'')]),
           (''parser'', JObj [(''contract_address'', JNull)])] \<and>
   validate_definition_files (env_slash []) ''defs/ds/'' =
     Inl (ValueError ''dataset_name is empty in file defs/ds/t.json'') \<and>
   validate_definition_files (env_slash ''ds'') ''defs/ds/'' =
     Inl (ValueError ''dataset_name ds is not equal to dataset_folder_name '')"
  by code_simp

text \<open>
  Claim C6, amended. When the folder name derived from the path is not empty, every
  definition declares, in a \<^verbatim>\<open>table\<close> section that is a dict, a dataset name equal to it and
  a table name equal to the non-empty \<open>file_name_of\<close> its file, and the file names are
  distinct after lower-casing with \<^verbatim>\<open>str.lower()\<close>, then \<open>validate_definition_files\<close> returns
  without an error.
\<close>

theorem well_named_definitions_validate:
  assumes "\<forall>p \<in> set (get_list_of_files env dataset_folder ''*.json'').
             declared (read_json_file env p) ''dataset_name''
               = Some (JStr (last (split CHR ''/'' dataset_folder))) \<and>
             declared (read_json_file env p) ''table_name'' = Some (JStr (file_name_of p)) \<and>
             file_name_of p \<noteq> []"
    and "last (split CHR ''/'' dataset_folder) \<noteq> []"
    and "distinct (map (\<lambda>p. py_lower env (file_name_of p))
           (get_list_of_files env dataset_folder ''*.json''))"
  shows "validate_definition_files env dataset_folder = Inr ()"
  using assms by (simp add: validate_Inr_iff check_definition_Inr_iff)

text \<open>The theorem at the folder \<open>env_ok\<close>.\<close>

theorem well_named_definitions_validate_witness:
  "get_list_of_files env_ok ''defs/ds'' ''*.json'' = [''defs/ds/A.json'', ''defs/ds/B.json''] \<and>
   last (split CHR ''/'' ''defs/ds'') = ''ds'' \<and>
   declared (read_json_file env_ok ''defs/ds/A.json'') ''dataset_name'' = Some (JStr ''ds'') \<and>
   declared (read_json_file env_ok ''defs/ds/B.json'') ''dataset_name'' = Some (JStr ''ds'') \<and>
   declared (read_json_file env_ok ''defs/ds/A.json'') ''table_name'' = Some (JStr ''A'') \<and>
   declared (read_json_file env_ok ''defs/ds/B.json'') ''table_name'' = Some (JStr ''B'') \<and>
   file_name_of ''defs/ds/A.json'' = ''A'' \<and> file_name_of ''defs/ds/B.json'' = ''B'' \<and>
   map (\<lambda>p. py_lower env_ok (file_name_of p)) (get_list_of_files env_ok ''defs/ds'' ''*.json'') = [''a'', ''b''] \<and>
   validate_definition_files env_ok ''defs/ds'' = Inr ()"
proof -
  have fs: "get_list_of_files env_ok ''defs/ds'' ''*.json'' = [''defs/ds/A.json'', ''defs/ds/B.json'']"
    by code_simp
  have f: "last (split CHR ''/'' ''defs/ds'') = ''ds''" by code_simp
  have d: "declared (read_json_file env_ok ''defs/ds/A.json'') ''dataset_name'' = Some (JStr ''ds'')"
    "declared (read_json_file env_ok ''defs/ds/B.json'') ''dataset_name'' = Some (JStr ''ds'')"
    "declared (read_json_file env_ok ''defs/ds/A.json'') ''table_name'' = Some (JStr ''A'')"
    "declared (read_json_file env_ok ''defs/ds/B.json'') ''table_name'' = Some (JStr ''B'')"
    by code_simp+
  have n: "file_name_of ''defs/ds/A.json'' = ''A''" "file_name_of ''defs/ds/B.json'' = ''B''"
    by code_simp+
  have l: "map (\<lambda>p. py_lower env_ok (file_name_of p)) (get_list_of_files env_ok ''defs/ds'' ''*.json'') = [''a'', ''b'']"
    by code_simp
  have h1: "\<forall>p \<in> set (get_list_of_files env_ok ''defs/ds'' ''*.json'').
             declared (read_json_file env_ok p) ''dataset_name''
               = Some (JStr (last (split CHR ''/'' ''defs/ds''))) \<and>
             declared (read_json_file env_ok p) ''table_name'' = Some (JStr (file_name_of p)) \<and>
             file_name_of p \<noteq> []"
    by (simp add: fs f d n)
  have h2: "last (split CHR ''/'' ''defs/ds'') \<noteq> []" by (simp add: f)
  have h3: "distinct (map (\<lambda>p. py_lower env_ok (file_name_of p)) (get_list_of_files env_ok ''defs/ds'' ''*.json''))"
    by (simp add: l)
  from well_named_definitions_validate [OF h1 h2 h3] show ?thesis
    using fs f d n l by simp
qed

section \<open>A dataset name that is not the folder name\<close>

text \<open>
  Claim C7, as stated, fails. In the folder \<open>env_mismatch\<close>, named \<^verbatim>\<open>mydataset\<close>, the file
  \<^verbatim>\<open>foo.json\<close> declares the dataset \<^verbatim>\<open>other\<close>. The file listed before it fails another
  check, and the message of the validation is about that file: it cites neither \<^verbatim>\<open>other\<close>
  nor \<^verbatim>\<open>mydataset\<close>.
\<close>

theorem earlier_error_hides_dataset_mismatch:
  "get_list_of_files env_mismatch ''defs/mydataset'' ''*.json'' =
     [''defs/mydataset/a.json'', ''defs/mydataset/foo.json''] \<and>
   last (split CHR ''/'' ''defs/mydataset'') = ''mydataset'' \<and>
   declared (read_json_file env_mismatch ''defs/mydataset/foo.json'') ''dataset_name''
     = Some (JStr ''other'') \<and>
   validate_definition_files env_mismatch ''defs/mydataset'' =
     Inl (ValueError ''file_name a doest match the table_name b'')"
  by code_simp

text \<open>
  Claim C7, amended. When a definition of the folder declares a dataset name, a string,
  that is not the folder name, validation fails. When in addition the declared name is not
  empty and every file listed before passes its checks, the error is the \<^verbatim>\<open>ValueError\<close>
  with the message \<^verbatim>\<open>dataset_name <declared> is not equal to dataset_folder_name <folder>\<close>.
\<close>

theorem dataset_name_mismatch:
  assumes "get_list_of_files env dataset_folder ''*.json'' = pre @ p # post"
    and "declared (read_json_file env p) ''dataset_name'' = Some (JStr dn)"
    and "dn \<noteq> last (split CHR ''/'' dataset_folder)"
  shows "(\<exists>e. validate_definition_files env dataset_folder = Inl e) \<and>
     ((\<forall>q \<in> set pre. \<exists>n. check_definition env (last (split CHR ''/'' dataset_folder)) q = Inr n) \<and>
      dn \<noteq> [] \<longrightarrow>
        validate_definition_files env dataset_folder =
          Inl (ValueError (''dataset_name '' @ dn @ '' is not equal to dataset_folder_name ''
                 @ last (split CHR ''/'' dataset_folder))))"
proof -
  let ?f = "last (split CHR ''/'' dataset_folder)"
  have "\<And>n. check_definition env ?f p \<noteq> Inr n"
    using assms(2,3) by (auto simp: check_definition_Inr_iff)
  then obtain e where e: "check_definition env ?f p = Inl e"
    by (cases "check_definition env ?f p") auto
  have "p \<in> set (get_list_of_files env dataset_folder ''*.json'')"
    by (simp add: assms(1))
  from validate_loop_fails [OF this e, of "[]"] obtain e' where
    "validate_loop env ?f (get_list_of_files env dataset_folder ''*.json'') [] = Inl e'" by blast
  then have fails: "\<exists>e. validate_definition_files env dataset_folder = Inl e"
    using validate_loop_Inl_validate by blast
  have "validate_definition_files env dataset_folder =
          Inl (ValueError (''dataset_name '' @ dn @ '' is not equal to dataset_folder_name '' @ ?f))"
    if pre: "\<forall>q \<in> set pre. \<exists>n. check_definition env ?f q = Inr n" and dn: "dn \<noteq> []"
  proof -
    have "check_definition env ?f p =
        Inl (ValueError (''dataset_name '' @ dn @ '' is not equal to dataset_folder_name '' @ ?f))"
      by (rule check_definition_dataset_mismatch [OF assms(2) dn assms(3)])
    from validate_loop_first_failure [OF pre this, of post "[]"]
    show ?thesis
      by (intro validate_loop_Inl_validate) (simp add: assms(1))
  qed
  with fails show ?thesis by blast
qed

text \<open>The theorem at the folder \<open>env_invalid\<close>, where the second file declares \<^verbatim>\<open>other\<close>.\<close>

theorem dataset_name_mismatch_witness:
  "get_list_of_files env_invalid ''defs/ds'' ''*.json'' = [''defs/ds/A.json''] @ ''defs/ds/B.json'' # [] \<and>
   declared (read_json_file env_invalid ''defs/ds/B.json'') ''dataset_name'' = Some (JStr ''other'') \<and>
   last (split CHR ''/'' ''defs/ds'') = ''ds'' \<and>
   check_definition env_invalid (last (split CHR ''/'' ''defs/ds'')) ''defs/ds/A.json'' = Inr ''a'' \<and>
   validate_definition_files env_invalid ''defs/ds'' =
     Inl (ValueError (''dataset_name '' @ ''other'' @ '' is not equal to dataset_folder_name '' @ ''ds''))"
proof -
  have fs: "get_list_of_files env_invalid ''defs/ds'' ''*.json'' = [''defs/ds/A.json''] @ ''defs/ds/B.json'' # []"
    by code_simp
  have d: "declared (read_json_file env_invalid ''defs/ds/B.json'') ''dataset_name'' = Some (JStr ''other'')"
    by code_simp
  have f: "last (split CHR ''/'' ''defs/ds'') = ''ds''" by code_simp
  have ne: "''other'' \<noteq> last (split CHR ''/'' ''defs/ds'')" by (simp add: f)
  have c: "check_definition env_invalid (last (split CHR ''/'' ''defs/ds'')) ''defs/ds/A.json'' = Inr ''a''"
    by code_simp
  have pre: "\<forall>q \<in> set [''defs/ds/A.json''].
      \<exists>n. check_definition env_invalid (last (split CHR ''/'' ''defs/ds'')) q = Inr n"
    using c by simp
  from dataset_name_mismatch [OF fs d ne] pre
  have "validate_definition_files env_invalid ''defs/ds'' =
     Inl (ValueError (''dataset_name '' @ ''other'' @ '' is not equal to dataset_folder_name ''
            @ last (split CHR ''/'' ''defs/ds'')))"
    by blast
  then show ?thesis using fs d f c by simp
qed

section \<open>Dependencies between parse tasks\<close>

text \<open>
  Claim C4, as stated, fails. In the folder \<open>env_invalid\<close> the definition \<^verbatim>\<open>A\<close> has no
  dependency and \<^verbatim>\<open>B\<close> refers to \<^verbatim>\<open>A\<close>, but \<^verbatim>\<open>B\<close> declares another dataset than the
  folder. The graph that is built has no dependency and no checkpoint.
\<close>

theorem validation_failure_leaves_no_dependency:
  "get_list_of_files env_invalid ''defs/ds'' ''*.json'' = [''defs/ds/A.json'', ''defs/ds/B.json''] \<and>
   declared (read_json_file env_invalid ''defs/ds/A.json'') ''table_name'' = Some (JStr ''A'') \<and>
   ref_dependencies env_invalid (read_json_file env_invalid ''defs/ds/A.json'') = Inr [] \<and>
   ref_dependencies env_invalid (read_json_file env_invalid ''defs/ds/B.json'') = Inr [''A''] \<and>
   build_parse_dag env_invalid ''dag'' ''defs/ds'' False = Inr dag_invalid \<and>
   edges dag_invalid = [] \<and>
   checkpoint_task \<notin> set (tasks dag_invalid)"
  by code_simp

text \<open>
  Claim C4, amended. When the folder has passed validation and \<open>build_parse_dag\<close> returns a
  graph, then for definitions \<^verbatim>\<open>A\<close> and \<^verbatim>\<open>B\<close> of the folder, where the dependency list of
  \<^verbatim>\<open>A\<close> is empty and the one of \<^verbatim>\<open>B\<close> has the table name of \<^verbatim>\<open>A\<close>: the graph has a
  dependency from the parse operator of \<^verbatim>\<open>A\<close> to the one of \<^verbatim>\<open>B\<close> and from each of the two to
  \<open>checkpoint_task\<close>; the only upstream operator of \<^verbatim>\<open>A\<close> is the sensor; and in the order of
  construction \<open>checkpoint_task\<close> comes after the parse operators of all JSON files and
  before the view operators.
\<close>

theorem dependency_edges:
  assumes "validate_definition_files env dataset_folder = Inr ()"
    and "build_parse_dag env dag_id0 dataset_folder parse_all_partitions = Inr d"
    and "pa \<in> set (get_list_of_files env dataset_folder ''*.json'')"
    and "pb \<in> set (get_list_of_files env dataset_folder ''*.json'')"
    and "ref_dependencies env (read_json_file env pa) = Inr []"
    and "ref_dependencies env (read_json_file env pb) = Inr deps"
    and "declared (read_json_file env pa) ''table_name'' = Some (JStr a)"
    and "a \<in> set deps"
  shows "task_id (parse_operator_of env pa) = a \<and>
         (parse_operator_of env pa, parse_operator_of env pb) \<in> set (edges d) \<and>
         (parse_operator_of env pa, checkpoint_task) \<in> set (edges d) \<and>
         (parse_operator_of env pb, checkpoint_task) \<in> set (edges d) \<and>
         upstream d (parse_operator_of env pa) = {wait_for_ethereum_load_dag_task} \<and>
         tasks d = wait_for_ethereum_load_dag_task #
                     map (parse_operator_of env) (get_list_of_files env dataset_folder ''*.json'') @
                   checkpoint_task #
                     map (view_operator_of env (''polygon_'' @ basename dataset_folder))
                       (get_list_of_files env dataset_folder ''*.sql'')"
proof -
  let ?ps = "get_list_of_files env dataset_folder ''*.json''"
  note t = build_Inr_elim(3) [OF assms(1,2)] and e = build_Inr_elim(4) [OF assms(1,2)]
  have a: "a = file_name_of pa"
    using validated_files(1) [OF assms(1)] assms(3,7) by auto
  have da: "dependencies_of env pa = []" using assms(5) by (simp add: dependencies_of_def)
  have db: "dependencies_of env pb = deps" using assms(6) by (simp add: dependencies_of_def)
  have id: "task_id (parse_operator_of env pa) = a"
    by (simp add: a parse_operator_of_def)
  have ab: "(parse_operator_of env pa, parse_operator_of env pb) \<in> set (edges d)"
    unfolding e in_graph_edges_iff using assms(3,4,8) a db by blast
  have ac: "(parse_operator_of env pa, checkpoint_task) \<in> set (edges d)"
    unfolding e in_graph_edges_iff using assms(3) by blast
  have bc: "(parse_operator_of env pb, checkpoint_task) \<in> set (edges d)"
    unfolding e in_graph_edges_iff using assms(4) by blast
  have up: "upstream d (parse_operator_of env pa) = {wait_for_ethereum_load_dag_task}"
  proof (rule set_eqI)
    fix u
    have "(u, parse_operator_of env pa) \<in> graph_edges env dataset_folder \<longleftrightarrow>
        u = wait_for_ethereum_load_dag_task"
    proof
      assume "(u, parse_operator_of env pa) \<in> graph_edges env dataset_folder"
      then consider "u = wait_for_ethereum_load_dag_task"
        | p q where "p \<in> set ?ps" "q \<in> set ?ps" "file_name_of q \<in> set (dependencies_of env p)"
            "parse_operator_of env pa = parse_operator_of env p"
        unfolding in_graph_edges_iff by auto
      then show "u = wait_for_ethereum_load_dag_task"
      proof cases
        case 1
        then show ?thesis .
      next
        case 2
        have "file_name_of pa = file_name_of p" using 2(4) by (rule parse_operator_of_inj)
        then have "pa = p"
          using validated_files(2) [OF assms(1)] assms(3) 2(1)
          by (meson distinct_map inj_onD)
        with 2(3) da show ?thesis by simp
      qed
    next
      assume "u = wait_for_ethereum_load_dag_task"
      then show "(u, parse_operator_of env pa) \<in> graph_edges env dataset_folder"
        unfolding in_graph_edges_iff using assms(3) by blast
    qed
    then show "u \<in> upstream d (parse_operator_of env pa) \<longleftrightarrow> u \<in> {wait_for_ethereum_load_dag_task}"
      by (simp add: upstream_iff e)
  qed
  show ?thesis using id ab ac bc up t by simp
qed

text \<open>The theorem at the folder \<open>env_ok\<close> and its graph \<open>dag_ok\<close>.\<close>

theorem dependency_edges_witness:
  "validate_definition_files env_ok ''defs/ds'' = Inr () \<and>
   build_parse_dag env_ok ''dag'' ''defs/ds'' False = Inr dag_ok \<and>
   get_list_of_files env_ok ''defs/ds'' ''*.json'' = [''defs/ds/A.json'', ''defs/ds/B.json''] \<and>
   ref_dependencies env_ok (read_json_file env_ok ''defs/ds/A.json'') = Inr [] \<and>
   ref_dependencies env_ok (read_json_file env_ok ''defs/ds/B.json'') = Inr [''A''] \<and>
   declared (read_json_file env_ok ''defs/ds/A.json'') ''table_name'' = Some (JStr ''A'') \<and>
   parse_operator_of env_ok ''defs/ds/A.json'' = op_A \<and>
   parse_operator_of env_ok ''defs/ds/B.json'' = op_B \<and>
   (op_A, op_B) \<in> set (edges dag_ok) \<and>
   (op_A, checkpoint_task) \<in> set (edges dag_ok) \<and>
   (op_B, checkpoint_task) \<in> set (edges dag_ok) \<and>
   upstream dag_ok op_A = {wait_for_ethereum_load_dag_task} \<and>
   tasks dag_ok = [wait_for_ethereum_load_dag_task, op_A, op_B, checkpoint_task, op_v1]"
proof -
  have v: "validate_definition_files env_ok ''defs/ds'' = Inr ()"
    by code_simp
  have b: "build_parse_dag env_ok ''dag'' ''defs/ds'' False = Inr dag_ok"
    by code_simp
  have fs: "get_list_of_files env_ok ''defs/ds'' ''*.json'' = [''defs/ds/A.json'', ''defs/ds/B.json'']"
    by code_simp
  have ra: "ref_dependencies env_ok (read_json_file env_ok ''defs/ds/A.json'') = Inr []"
    by code_simp
  have rb: "ref_dependencies env_ok (read_json_file env_ok ''defs/ds/B.json'') = Inr [''A'']"
    by code_simp
  have ta: "declared (read_json_file env_ok ''defs/ds/A.json'') ''table_name'' = Some (JStr ''A'')"
    by code_simp
  have oa: "parse_operator_of env_ok ''defs/ds/A.json'' = op_A"
    by code_simp
  have ob: "parse_operator_of env_ok ''defs/ds/B.json'' = op_B"
    by code_simp
  have pa: "''defs/ds/A.json'' \<in> set (get_list_of_files env_ok ''defs/ds'' ''*.json'')"
    and pb: "''defs/ds/B.json'' \<in> set (get_list_of_files env_ok ''defs/ds'' ''*.json'')"
    by (simp_all add: fs)
  have m: "''A'' \<in> set [''A'']" by simp
  from dependency_edges [OF v b pa pb ra rb ta m]
  have "(op_A, op_B) \<in> set (edges dag_ok) \<and>
   (op_A, checkpoint_task) \<in> set (edges dag_ok) \<and>
   (op_B, checkpoint_task) \<in> set (edges dag_ok) \<and>
   upstream dag_ok op_A = {wait_for_ethereum_load_dag_task}"
    by (simp add: oa ob)
  moreover have "tasks dag_ok = [wait_for_ethereum_load_dag_task, op_A, op_B, checkpoint_task, op_v1]"
    by (simp add: dag_ok_def)
  ultimately show ?thesis using v b fs ra rb ta oa ob by simp
qed

section \<open>View tasks\<close>

text \<open>
  Claim C5, as stated, fails. The folder \<open>env_invalid\<close> has one SQL file, and the graph
  built from it has no view operator, since validation fails.
\<close>

theorem validation_failure_leaves_no_view:
  "get_list_of_files env_invalid ''defs/ds'' ''*.sql'' = [''defs/ds/v1.sql''] \<and>
   build_parse_dag env_invalid ''dag'' ''defs/ds'' False = Inr dag_invalid \<and>
   filter is_view_task (tasks dag_invalid) = []"
  by code_simp

text \<open>
  Claim C5, amended. When the folder has passed validation and \<open>build_parse_dag\<close> returns a
  graph, the view operators of the graph are those of the SQL files of the folder, one for
  each and in their order, so there are as many as SQL files. The operator of a SQL file has
  the task id \<^verbatim>\<open>create_view_\<close> followed by the base name of the file without its extension,
  its only upstream operator is \<open>checkpoint_task\<close>, and no operator depends on it.
\<close>

theorem view_tasks_after_checkpoint:
  assumes "validate_definition_files env dataset_folder = Inr ()"
    and "build_parse_dag env dag_id0 dataset_folder parse_all_partitions = Inr d"
  shows "filter is_view_task (tasks d) =
           map (view_operator_of env (''polygon_'' @ basename dataset_folder))
             (get_list_of_files env dataset_folder ''*.sql'') \<and>
         length (filter is_view_task (tasks d)) =
           length (get_list_of_files env dataset_folder ''*.sql'') \<and>
         (\<forall>s \<in> set (get_list_of_files env dataset_folder ''*.sql'').
            view_operator_of env (''polygon_'' @ basename dataset_folder) s =
              PythonOperator (''create_view_'' @ splitext_root (basename s))
                (create_view_task (''polygon_'' @ basename dataset_folder)
                   (splitext_root (basename s)) (read_file env s)) 10 \<and>
            upstream d (view_operator_of env (''polygon_'' @ basename dataset_folder) s) =
              {checkpoint_task} \<and>
            (\<forall>t. (view_operator_of env (''polygon_'' @ basename dataset_folder) s, t)
                    \<notin> set (edges d)))"
proof (intro conjI ballI allI)
  note t = build_Inr_elim(3) [OF assms] and e = build_Inr_elim(4) [OF assms]
  show f: "filter is_view_task (tasks d) =
      map (view_operator_of env (''polygon_'' @ basename dataset_folder))
        (get_list_of_files env dataset_folder ''*.sql'')"
    unfolding t by (simp add: filter_map_none filter_map_all)
  show "length (filter is_view_task (tasks d)) =
           length (get_list_of_files env dataset_folder ''*.sql'')"
    unfolding f by (rule length_map)
  fix s assume s: "s \<in> set (get_list_of_files env dataset_folder ''*.sql'')"
  show "view_operator_of env (''polygon_'' @ basename dataset_folder) s =
              PythonOperator (''create_view_'' @ splitext_root (basename s))
                (create_view_task (''polygon_'' @ basename dataset_folder)
                   (splitext_root (basename s)) (read_file env s)) 10"
    by (rule view_operator_of_def)
  show "upstream d (view_operator_of env (''polygon_'' @ basename dataset_folder) s) = {checkpoint_task}"
    by (rule upstream_of_view [OF e s])
  fix t
  show "(view_operator_of env (''polygon_'' @ basename dataset_folder) s, t) \<notin> set (edges d)"
    by (rule no_downstream_of_view [OF e])
qed

text \<open>The theorem at the folder \<open>env_ok\<close> and its graph \<open>dag_ok\<close>.\<close>

theorem view_tasks_after_checkpoint_witness:
  "validate_definition_files env_ok ''defs/ds'' = Inr () \<and>
   build_parse_dag env_ok ''dag'' ''defs/ds'' False = Inr dag_ok \<and>
   get_list_of_files env_ok ''defs/ds'' ''*.sql'' = [''defs/ds/v1.sql''] \<and>
   view_operator_of env_ok (''polygon_'' @ basename ''defs/ds'') ''defs/ds/v1.sql'' = op_v1 \<and>
   filter is_view_task (tasks dag_ok) = [op_v1] \<and>
   upstream dag_ok op_v1 = {checkpoint_task}"
proof -
  have v: "validate_definition_files env_ok ''defs/ds'' = Inr ()"
    by code_simp
  have b: "build_parse_dag env_ok ''dag'' ''defs/ds'' False = Inr dag_ok"
    by code_simp
  have ss: "get_list_of_files env_ok ''defs/ds'' ''*.sql'' = [''defs/ds/v1.sql'']"
    by code_simp
  have ov: "view_operator_of env_ok (''polygon_'' @ basename ''defs/ds'') ''defs/ds/v1.sql'' = op_v1"
    by code_simp
  note th = view_tasks_after_checkpoint [OF v b]
  from th have "filter is_view_task (tasks dag_ok) =
      map (view_operator_of env_ok (''polygon_'' @ basename ''defs/ds''))
        (get_list_of_files env_ok ''defs/ds'' ''*.sql'')"
    by (rule conjunct1)
  then have f: "filter is_view_task (tasks dag_ok) = [op_v1]"
    by (simp only: ss list.map ov)
  have s: "''defs/ds/v1.sql'' \<in> set (get_list_of_files env_ok ''defs/ds'' ''*.sql'')"
    by (simp only: ss) simp
  from th [THEN conjunct2, THEN conjunct2, THEN bspec, OF s]
  have "upstream dag_ok (view_operator_of env_ok (''polygon_'' @ basename ''defs/ds'') ''defs/ds/v1.sql'')
      = {checkpoint_task}"
    by (rule conjunct2 [THEN conjunct1])
  then have u: "upstream dag_ok op_v1 = {checkpoint_task}"
    by (simp only: ov)
  show ?thesis using v b ss ov f u by (intro conjI)
qed

section \<open>A definition without a contract address\<close>

text \<open>
  Claim C10, as stated, fails. In the folder \<open>env_invalid\<close> the definition \<^verbatim>\<open>A\<close> has the
  address \<^verbatim>\<open>None\<close>; since the other definition fails validation, the graph that is built has
  no parse operator at all.
\<close>

theorem validation_failure_leaves_no_parse_task:
  "get_list_of_files env_invalid ''defs/ds'' ''*.json'' = [''defs/ds/A.json'', ''defs/ds/B.json''] \<and>
   getitem2 (read_json_file env_invalid ''defs/ds/A.json'') ''parser'' ''contract_address'' = Inr JNull \<and>
   build_parse_dag env_invalid ''dag'' ''defs/ds'' False = Inr dag_invalid \<and>
   filter is_parse_task (tasks dag_invalid) = [] \<and>
   parse_operator_of env_invalid ''defs/ds/A.json'' \<notin> set (tasks dag_invalid)"
  by code_simp

text \<open>
  Claim C10, amended. For a definition whose \<^verbatim>\<open>parser.contract_address\<close> is \<^verbatim>\<open>None\<close> and
  whose table name is a task id that Airflow accepts and that no operator of the DAG has
  yet, \<open>create_parse_task\<close> constructs the parse operator and returns it with the empty
  dependency list. Whether or not the operator can be constructed, the result is the same
  whatever the pattern \<open>ref_findall\<close> is (it is not applied). When the definition is read from
  a JSON file of a folder that has passed validation and \<open>build_parse_dag\<close> returns a graph,
  the parse operator is in the graph, with a dependency on the sensor, and
  \<open>checkpoint_task\<close> depends on it.
\<close>

theorem null_contract_address:
  assumes "getitem2 table_definition ''parser'' ''contract_address'' = Inr JNull"
    and "getitem2 table_definition ''table'' ''table_name'' = Inr (JStr name)"
    and "validate_key env name"
    and "name \<notin> task_id ` set (tasks d0)"
  shows "create_parse_task env table_definition d0 =
           Inr (add_task (PythonOperator name (parse_task table_definition) 60) d0,
                PythonOperator name (parse_task table_definition) 60, []) \<and>
         create_parse_task (env\<lparr>ref_findall := f\<rparr>) table_definition d0 =
           create_parse_task env table_definition d0 \<and>
         ref_dependencies env table_definition = Inr [] \<and>
         (validate_definition_files env dataset_folder = Inr () \<and>
          build_parse_dag env dag_id0 dataset_folder parse_all_partitions = Inr d \<and>
          p \<in> set (get_list_of_files env dataset_folder ''*.json'') \<and>
          read_json_file env p = table_definition \<longrightarrow>
            parse_operator_of env p = PythonOperator name (parse_task table_definition) 60 \<and>
            parse_operator_of env p \<in> set (tasks d) \<and>
            (wait_for_ethereum_load_dag_task, parse_operator_of env p) \<in> set (edges d) \<and>
            (parse_operator_of env p, checkpoint_task) \<in> set (edges d))"
proof -
  have k: "construct env (PythonOperator name (parse_task table_definition) 60) d0 =
      Inr (add_task (PythonOperator name (parse_task table_definition) 60) d0)"
    using assms(3,4) by (intro construct_Inr) simp_all
  have c: "create_parse_task env table_definition d0 =
           Inr (add_task (PythonOperator name (parse_task table_definition) 60) d0,
                PythonOperator name (parse_task table_definition) 60, [])"
    using assms(1,2) k by (simp add: create_parse_task_def Let_def)
  have "construct (env\<lparr>ref_findall := f\<rparr>) = construct env"
    by (simp add: construct_def validate_key_def fun_eq_iff)
  then have c': "create_parse_task (env\<lparr>ref_findall := f\<rparr>) table_definition d0 =
           create_parse_task env table_definition d0"
    using assms(1,2) by (simp add: create_parse_task_def Let_def split: sum.splits)
  have r: "ref_dependencies env table_definition = Inr []"
    using assms(1) by (simp add: ref_dependencies_def)
  have g: "parse_operator_of env p = PythonOperator name (parse_task table_definition) 60 \<and>
            parse_operator_of env p \<in> set (tasks d) \<and>
            (wait_for_ethereum_load_dag_task, parse_operator_of env p) \<in> set (edges d) \<and>
            (parse_operator_of env p, checkpoint_task) \<in> set (edges d)"
    if v: "validate_definition_files env dataset_folder = Inr ()"
      and b: "build_parse_dag env dag_id0 dataset_folder parse_all_partitions = Inr d"
      and p: "p \<in> set (get_list_of_files env dataset_folder ''*.json'')"
      and td: "read_json_file env p = table_definition"
  proof -
    note t = build_Inr_elim(3) [OF v b] and e = build_Inr_elim(4) [OF v b]
    have "getitem2 table_definition ''table'' ''table_name'' = Inr (JStr (file_name_of p))"
      using validated_files(1) [OF v] p td declared_getitem2 by blast
    then have "name = file_name_of p" using assms(2) by simp
    then have "parse_operator_of env p = PythonOperator name (parse_task table_definition) 60"
      by (simp add: parse_operator_of_def td)
    moreover have "parse_operator_of env p \<in> set (tasks d)"
      using p by (simp add: t)
    moreover have "(wait_for_ethereum_load_dag_task, parse_operator_of env p) \<in> set (edges d)"
      unfolding e in_graph_edges_iff using p by blast
    moreover have "(parse_operator_of env p, checkpoint_task) \<in> set (edges d)"
      unfolding e in_graph_edges_iff using p by blast
    ultimately show ?thesis by simp
  qed
  have g': "validate_definition_files env dataset_folder = Inr () \<and>
          build_parse_dag env dag_id0 dataset_folder parse_all_partitions = Inr d \<and>
          p \<in> set (get_list_of_files env dataset_folder ''*.json'') \<and>
          read_json_file env p = table_definition \<longrightarrow>
            parse_operator_of env p = PythonOperator name (parse_task table_definition) 60 \<and>
            parse_operator_of env p \<in> set (tasks d) \<and>
            (wait_for_ethereum_load_dag_task, parse_operator_of env p) \<in> set (edges d) \<and>
            (parse_operator_of env p, checkpoint_task) \<in> set (edges d)"
    using g by blast
  show ?thesis using c c' r g' by (intro conjI)
qed

text \<open>The theorem at the definition \<^verbatim>\<open>A\<close> of the folder \<open>env_ok\<close>.\<close>

theorem null_contract_address_witness:
  "getitem2 (example_definition ''ds'' ''A'' JNull) ''parser'' ''contract_address'' = Inr JNull \<and>
   getitem2 (example_definition ''ds'' ''A'' JNull) ''table'' ''table_name'' = Inr (JStr ''A'') \<and>
   validate_key env_ok ''A'' \<and>
   ''A'' \<notin> task_id ` set (tasks (start_dag ''dag'' False)) \<and>
   validate_definition_files env_ok ''defs/ds'' = Inr () \<and>
   build_parse_dag env_ok ''dag'' ''defs/ds'' False = Inr dag_ok \<and>
   get_list_of_files env_ok ''defs/ds'' ''*.json'' = [''defs/ds/A.json'', ''defs/ds/B.json''] \<and>
   read_json_file env_ok ''defs/ds/A.json'' = example_definition ''ds'' ''A'' JNull \<and>
   parse_operator_of env_ok ''defs/ds/A.json'' = op_A \<and>
   create_parse_task env_ok (example_definition ''ds'' ''A'' JNull) (start_dag ''dag'' False) =
     Inr (add_task op_A (start_dag ''dag'' False), op_A, []) \<and>
   op_A \<in> set (tasks dag_ok) \<and>
   (wait_for_ethereum_load_dag_task, op_A) \<in> set (edges dag_ok) \<and>
   (op_A, checkpoint_task) \<in> set (edges dag_ok)"
proof -
  have h1: "getitem2 (example_definition ''ds'' ''A'' JNull) ''parser'' ''contract_address'' = Inr JNull"
    by code_simp
  have h2: "getitem2 (example_definition ''ds'' ''A'' JNull) ''table'' ''table_name'' = Inr (JStr ''A'')"
    by code_simp
  have h3: "validate_key env_ok ''A''"
    by code_simp
  have h4: "''A'' \<notin> task_id ` set (tasks (start_dag ''dag'' False))"
    by (simp add: start_dag_def)
  have v: "validate_definition_files env_ok ''defs/ds'' = Inr ()"
    by code_simp
  have b: "build_parse_dag env_ok ''dag'' ''defs/ds'' False = Inr dag_ok"
    by code_simp
  have fs: "get_list_of_files env_ok ''defs/ds'' ''*.json'' = [''defs/ds/A.json'', ''defs/ds/B.json'']"
    by code_simp
  have td: "read_json_file env_ok ''defs/ds/A.json'' = example_definition ''ds'' ''A'' JNull"
    by code_simp
  have oa: "parse_operator_of env_ok ''defs/ds/A.json'' = op_A"
    by code_simp
  have p: "''defs/ds/A.json'' \<in> set (get_list_of_files env_ok ''defs/ds'' ''*.json'')"
    by (simp only: fs) simp
  note th = null_contract_address [OF h1 h2 h3 h4, of example_findall
      "''defs/ds''" "''dag''" False dag_ok "''defs/ds/A.json''"]
  from th have "create_parse_task env_ok (example_definition ''ds'' ''A'' JNull) (start_dag ''dag'' False) =
     Inr (add_task (PythonOperator ''A'' (parse_task (example_definition ''ds'' ''A'' JNull)) 60)
            (start_dag ''dag'' False),
          PythonOperator ''A'' (parse_task (example_definition ''ds'' ''A'' JNull)) 60, [])"
    by (rule conjunct1)
  then have c: "create_parse_task env_ok (example_definition ''ds'' ''A'' JNull) (start_dag ''dag'' False) =
     Inr (add_task op_A (start_dag ''dag'' False), op_A, [])"
    by (simp only: op_A_def)
  have "validate_definition_files env_ok ''defs/ds'' = Inr () \<and>
        build_parse_dag env_ok ''dag'' ''defs/ds'' False = Inr dag_ok \<and>
        ''defs/ds/A.json'' \<in> set (get_list_of_files env_ok ''defs/ds'' ''*.json'') \<and>
        read_json_file env_ok ''defs/ds/A.json'' = example_definition ''ds'' ''A'' JNull"
    using v b p td by (intro conjI)
  from th [THEN conjunct2, THEN conjunct2, THEN conjunct2, THEN mp, OF this]
  have "parse_operator_of env_ok ''defs/ds/A.json'' \<in> set (tasks dag_ok) \<and>
        (wait_for_ethereum_load_dag_task, parse_operator_of env_ok ''defs/ds/A.json'') \<in> set (edges dag_ok) \<and>
        (parse_operator_of env_ok ''defs/ds/A.json'', checkpoint_task) \<in> set (edges dag_ok)"
    by (rule conjunct2)
  then have g: "op_A \<in> set (tasks dag_ok) \<and>
        (wait_for_ethereum_load_dag_task, op_A) \<in> set (edges dag_ok) \<and>
        (op_A, checkpoint_task) \<in> set (edges dag_ok)"
    by (simp only: oa)
  show ?thesis using h1 h2 h3 h4 v b fs td oa c g by blast
qed

end
